theory Spec2Isabelle
  imports Main "HOL-Library.Multiset" "HOL-Library.Sublist"
begin

section \<open>The question document model (src/types/index.ts)\<close>

text \<open>
  The assessment-authoring tool keeps quiz questions of three kinds.  The TypeScript
  type \<open>Question\<close> is a union of three interfaces that extend \<open>BaseQuestion\<close> and
  are told apart by the \<open>type\<close> tag.  The base fields become a record; the
  variant-specific fields become the constructors of a datatype, so that \<open>options\<close>
  exists exactly on a multiple-choice question, \<open>items\<close> on an ordering question and
  \<open>zones\<close>, \<open>imageUrl\<close>, \<open>imageFile\<close> on a hotspot question, as the interfaces say.
  An optional field \<open>f?: T\<close> is a \<open>T option\<close> (\<open>None\<close> is \<open>undefined\<close>).

  Strings are \<open>char list\<close>; a character stands for one code unit below 256.
  The \<open>order\<close> of an item and the coordinates of a point are JavaScript numbers;
  the model takes them as integers, which is what the editor produces
  (\<open>items.length\<close>, array indices, \<open>Math.round\<close>).
\<close>

datatype QuestionType = Mcq | Ordering | Hotspot

datatype Purpose = Formative | Summative

datatype BloomsLevel = Remember | Understand | Apply | Analyze | Evaluate | Create

record MCQOption =
  opt_id :: string
  opt_text :: string
  opt_isCorrect :: bool
  opt_feedback :: "string option"

record OrderingItem =
  item_id :: string
  item_text :: string
  item_order :: int

record HotspotZone =
  zone_id :: string
  zone_coordinates :: "(int \<times> int) list"
  zone_label :: "string option"

typedecl File

datatype Payload =
    MCQ "MCQOption list"
  | ORDERING "OrderingItem list"
  | HOTSPOT "HotspotZone list" "string option" "File option"

record Question =
  qid :: string
  purpose :: Purpose
  stem :: string
  topic :: "string option"
  learningObjective :: "string option"
  bloomsLevel :: "BloomsLevel option"
  payload :: Payload

fun payloadType :: "Payload \<Rightarrow> QuestionType" where
  "payloadType (MCQ _) = Mcq"
| "payloadType (ORDERING _) = Ordering"
| "payloadType (HOTSPOT _ _ _) = Hotspot"

definition qtype :: "Question \<Rightarrow> QuestionType" where
  "qtype q = payloadType (payload q)"

fun typeName :: "QuestionType \<Rightarrow> string" where
  "typeName Mcq = ''mcq''"
| "typeName Ordering = ''ordering''"
| "typeName Hotspot = ''hotspot''"

text \<open>The number of variant-specific sub-entities a question owns.\<close>

fun subItemCount :: "Payload \<Rightarrow> nat" where
  "subItemCount (MCQ opts) = length opts"
| "subItemCount (ORDERING its) = length its"
| "subItemCount (HOTSPOT zs _ _) = length zs"

record AssessmentState =
  questions :: "Question list"
  currentQuestionId :: "string option"

subsection \<open>JavaScript string helpers\<close>

text \<open>
  \<open>String.prototype.trim\<close> removes white space and line terminators from both ends.
  Below code unit 256 these are TAB, LF, VT, FF, CR, SPACE and NBSP.
  A string is falsy in JavaScript exactly when it is empty.
\<close>

definition isWhiteSpace :: "char \<Rightarrow> bool" where
  "isWhiteSpace c \<longleftrightarrow>
     c = CHR 0x09 \<or> c = CHR 0x0A \<or> c = CHR 0x0B \<or> c = CHR 0x0C \<or> c = CHR 0x0D \<or>
     c = CHR 0x20 \<or> c = CHR 0xA0"

definition trim :: "string \<Rightarrow> string" where
  "trim s = rev (dropWhile isWhiteSpace (rev (dropWhile isWhiteSpace s)))"

text \<open>\<open>!s?.trim()\<close> for an optional string: true when it is absent or blank.\<close>

fun blankOpt :: "string option \<Rightarrow> bool" where
  "blankOpt None = True"
| "blankOpt (Some s) = (trim s = [])"

text \<open>\<open>!s\<close> for an optional string: true when it is absent or empty.\<close>

fun falsyOpt :: "string option \<Rightarrow> bool" where
  "falsyOpt None = True"
| "falsyOpt (Some s) = (s = [])"

section \<open>Creating questions (createEmptyQuestion)\<close>

text \<open>
  \<open>generateId\<close> draws a random string.  The model takes the outcomes of the
  successive calls as a function \<open>gen\<close> from the call number to the string drawn;
  the object literal of \<open>createEmptyQuestion\<close> evaluates the question's id first and
  the ids of the sub-entities afterwards, in order.  The argument is the type tag
  as the switch sees it at run time, and the \<open>default\<close> branch, which throws, is the
  \<open>Inl\<close> result.
\<close>

definition stubOption :: "string \<Rightarrow> bool \<Rightarrow> MCQOption" where
  "stubOption i c = \<lparr>opt_id = i, opt_text = '''', opt_isCorrect = c, opt_feedback = None\<rparr>"

definition stubItem :: "string \<Rightarrow> int \<Rightarrow> OrderingItem" where
  "stubItem i n = \<lparr>item_id = i, item_text = '''', item_order = n\<rparr>"

definition baseQuestion :: "string \<Rightarrow> Payload \<Rightarrow> Question" where
  "baseQuestion i p =
     \<lparr>qid = i, purpose = Formative, stem = '''', topic = None,
      learningObjective = None, bloomsLevel = None, payload = p\<rparr>"

definition createEmptyQuestion :: "(nat \<Rightarrow> string) \<Rightarrow> string \<Rightarrow> string + Question" where
  "createEmptyQuestion gen t =
     (if t = ''mcq'' then
        Inr (baseQuestion (gen 0)
          (MCQ [stubOption (gen 1) False, stubOption (gen 2) True,
                stubOption (gen 3) False, stubOption (gen 4) False]))
      else if t = ''ordering'' then
        Inr (baseQuestion (gen 0)
          (ORDERING [stubItem (gen 1) 0, stubItem (gen 2) 1, stubItem (gen 3) 2]))
      else if t = ''hotspot'' then
        Inr (baseQuestion (gen 0) (HOTSPOT [] (Some '''') None))
      else Inl (''Unknown question type: '' @ t))"

section \<open>The client-side validator (validateQuestion)\<close>

text \<open>
  The function collects messages in a local array, in the order of its checks, and
  never throws.  \<open>errs @ [m]\<close> is \<open>errors.push(m)\<close>; \<open>list_ex\<close> is
  \<open>Array.prototype.some\<close>.
\<close>

record ValidationResult =
  isValid :: bool
  errors :: "string list"

definition validateQuestion :: "Question \<Rightarrow> ValidationResult" where
  "validateQuestion question =
     (let errs = [];
          errs = (if trim (stem question) = []
                  then errs @ [''Question stem is required''] else errs);
          errs = (if purpose question = Summative then
                    (let errs = (if blankOpt (learningObjective question)
                                 then errs @ [''Learning objective is required for summative questions'']
                                 else errs)
                     in (if bloomsLevel question = None
                         then errs @ [''Bloom's level is required for summative questions'']
                         else errs))
                  else errs);
          errs = (case payload question of
                    MCQ opts \<Rightarrow>
                      (let hasCorrectOption = list_ex opt_isCorrect opts;
                           errs = (if \<not> hasCorrectOption
                                   then errs @ [''At least one option must be marked as correct'']
                                   else errs);
                           hasEmptyOption = list_ex (\<lambda>opt. trim (opt_text opt) = []) opts;
                           errs = (if hasEmptyOption
                                   then errs @ [''All options must have text''] else errs)
                       in (if purpose question = Formative then
                             (let hasEmptyFeedback = list_ex (\<lambda>opt. blankOpt (opt_feedback opt)) opts
                              in (if hasEmptyFeedback
                                  then errs @ [''All options must have feedback for formative questions'']
                                  else errs))
                           else errs))
                  | ORDERING its \<Rightarrow>
                      (let hasEmptyItem = list_ex (\<lambda>item. trim (item_text item) = []) its;
                           errs = (if hasEmptyItem
                                   then errs @ [''All items must have text''] else errs)
                       in (if length its < 2
                           then errs @ [''Ordering questions must have at least 2 items'']
                           else errs))
                  | HOTSPOT zs _ _ \<Rightarrow>
                      (if length zs = 0
                       then errs @ [''At least one hotspot zone is required''] else errs))
      in \<lparr>isValid = (length errs = 0), errors = errs\<rparr>)"

text \<open>
  The same function with its effects explicit.  The body of \<open>validateQuestion\<close>
  works on two objects: the question it was given and the local array \<open>errors\<close>.
  Each statement is a transformer of that pair; \<open>pushError\<close> is the only write,
  and it writes to the array.  A call returns the question as it is after the call
  together with the result.
\<close>

record ValidatorState =
  vs_question :: Question
  vs_errors :: "string list"

definition pushError :: "string \<Rightarrow> ValidatorState \<Rightarrow> ValidatorState" where
  "pushError m s = s\<lparr>vs_errors := vs_errors s @ [m]\<rparr>"

definition baseValidation :: "ValidatorState \<Rightarrow> ValidatorState" where
  "baseValidation s =
     (if trim (stem (vs_question s)) = [] then pushError ''Question stem is required'' s else s)"

definition purposeValidation :: "ValidatorState \<Rightarrow> ValidatorState" where
  "purposeValidation s =
     (if purpose (vs_question s) = Summative then
        (let s = (if blankOpt (learningObjective (vs_question s))
                  then pushError ''Learning objective is required for summative questions'' s
                  else s)
         in (if bloomsLevel (vs_question s) = None
             then pushError ''Bloom's level is required for summative questions'' s
             else s))
      else s)"

definition typeValidation :: "ValidatorState \<Rightarrow> ValidatorState" where
  "typeValidation s =
     (case payload (vs_question s) of
        MCQ opts \<Rightarrow>
          (let s = (if \<not> list_ex opt_isCorrect opts
                    then pushError ''At least one option must be marked as correct'' s else s);
               s = (if list_ex (\<lambda>opt. trim (opt_text opt) = []) opts
                    then pushError ''All options must have text'' s else s)
           in (if purpose (vs_question s) = Formative then
                 (if list_ex (\<lambda>opt. blankOpt (opt_feedback opt)) opts
                  then pushError ''All options must have feedback for formative questions'' s
                  else s)
               else s))
      | ORDERING its \<Rightarrow>
          (let s = (if list_ex (\<lambda>item. trim (item_text item) = []) its
                    then pushError ''All items must have text'' s else s)
           in (if length its < 2
               then pushError ''Ordering questions must have at least 2 items'' s else s))
      | HOTSPOT zs _ _ \<Rightarrow>
          (if length zs = 0 then pushError ''At least one hotspot zone is required'' s else s))"

definition validateQuestionCall :: "Question \<Rightarrow> Question \<times> ValidationResult" where
  "validateQuestionCall question =
     (let s = typeValidation (purposeValidation (baseValidation
                \<lparr>vs_question = question, vs_errors = []\<rparr>))
      in (vs_question s, \<lparr>isValid = (length (vs_errors s) = 0), errors = vs_errors s\<rparr>))"

text \<open>All messages of the client-side validator, in the order of its checks.\<close>

definition allMessages :: "string list" where
  "allMessages =
     [''Question stem is required'',
      ''Learning objective is required for summative questions'',
      ''Bloom's level is required for summative questions'',
      ''At least one option must be marked as correct'',
      ''All options must have text'',
      ''All options must have feedback for formative questions'',
      ''All items must have text'',
      ''Ordering questions must have at least 2 items'',
      ''At least one hotspot zone is required'']"

section \<open>The schema-side validator (demoSchema.js)\<close>

text \<open>
  The schema is declared for the Mongoose library, which is not part of the
  repository; the model reads each declared rule by its documented meaning.
  A document is flat: it has \<open>options\<close>, \<open>items\<close> and \<open>zones\<close> whatever its type
  (an array path holds \<open>[]\<close> when nothing was given), plus \<open>createdBy\<close> and \<open>tags\<close>.
  The sub-documents have the fields of the sub-entities above (their \<open>_id\<close> is the
  id).  \<open>type\<close>, \<open>purpose\<close> and \<open>bloomsLevel\<close> are typed by their enumerations, so
  an enum rule cannot fail in the model; \<open>createdBy\<close> is taken as already cast.
\<close>

record QuestionDoc =
  doc_type :: QuestionType
  doc_purpose :: Purpose
  doc_stem :: string
  doc_topic :: "string option"
  doc_learningObjective :: "string option"
  doc_bloomsLevel :: "BloomsLevel option"
  doc_createdBy :: "string option"
  doc_tags :: "string list"
  doc_options :: "MCQOption list"
  doc_items :: "OrderingItem list"
  doc_zones :: "HotspotZone list"
  doc_imageUrl :: "string option"

subsection \<open>Setters: \<open>trim: true\<close>\<close>

text \<open>
  A path declared with \<open>trim: true\<close> stores the trimmed string: the setter runs when
  the value is assigned, before any validation.
\<close>

definition castOption :: "MCQOption \<Rightarrow> MCQOption" where
  "castOption opt =
     opt\<lparr>opt_text := trim (opt_text opt), opt_feedback := map_option trim (opt_feedback opt)\<rparr>"

definition castItem :: "OrderingItem \<Rightarrow> OrderingItem" where
  "castItem item = item\<lparr>item_text := trim (item_text item)\<rparr>"

definition castZone :: "HotspotZone \<Rightarrow> HotspotZone" where
  "castZone zone = zone\<lparr>zone_label := map_option trim (zone_label zone)\<rparr>"

definition castDocument :: "QuestionDoc \<Rightarrow> QuestionDoc" where
  "castDocument raw =
     raw\<lparr>doc_stem := trim (doc_stem raw),
         doc_topic := map_option trim (doc_topic raw),
         doc_learningObjective := map_option trim (doc_learningObjective raw),
         doc_tags := map trim (doc_tags raw),
         doc_options := map castOption (doc_options raw),
         doc_items := map castItem (doc_items raw),
         doc_zones := map castZone (doc_zones raw),
         doc_imageUrl := map_option trim (doc_imageUrl raw)\<rparr>"

subsection \<open>The pattern of the imageUrl rule\<close>

text \<open>
  The rule tests the regular expression \<open>/^https?:\/\/.+/\<close>.  A pattern of this
  shape is a sequence of atoms (a literal character, or the dot, which matches any
  character but a line terminator), each taken once, optionally (\<open>?\<close>) or one or
  more times (\<open>+\<close>).  \<open>matchSeq\<close> is the backtracking match of such a sequence
  against the beginning of a string; \<open>RegExp.prototype.test\<close> on a pattern anchored
  by \<open>^\<close> and open at the end asks exactly for that.
\<close>

datatype Atom = Chr char | Dot

datatype Quantifier = Once | Optional | OneOrMore

definition isLineTerminator :: "char \<Rightarrow> bool" where
  "isLineTerminator c \<longleftrightarrow> c = CHR 0x0A \<or> c = CHR 0x0D"

fun matchAtom :: "Atom \<Rightarrow> char \<Rightarrow> bool" where
  "matchAtom (Chr x) c = (c = x)"
| "matchAtom Dot c = (\<not> isLineTerminator c)"

fun matchSeq :: "(Atom \<times> Quantifier) list \<Rightarrow> string \<Rightarrow> bool" where
  "matchSeq [] s = True"
| "matchSeq ((a, Once) # r) [] = False"
| "matchSeq ((a, Once) # r) (c # cs) = (matchAtom a c \<and> matchSeq r cs)"
| "matchSeq ((a, Optional) # r) [] = matchSeq r []"
| "matchSeq ((a, Optional) # r) (c # cs) =
     ((matchAtom a c \<and> matchSeq r cs) \<or> matchSeq r (c # cs))"
| "matchSeq ((a, OneOrMore) # r) [] = False"
| "matchSeq ((a, OneOrMore) # r) (c # cs) =
     (matchAtom a c \<and> (matchSeq ((a, OneOrMore) # r) cs \<or> matchSeq r cs))"

definition urlPattern :: "(Atom \<times> Quantifier) list" where
  "urlPattern =
     [(Chr CHR ''h'', Once), (Chr CHR ''t'', Once), (Chr CHR ''t'', Once), (Chr CHR ''p'', Once),
      (Chr CHR ''s'', Optional), (Chr CHR '':'', Once), (Chr CHR ''/'', Once),
      (Chr CHR ''/'', Once), (Dot, OneOrMore)]"

definition imageUrlValidator :: "string option \<Rightarrow> bool" where
  "imageUrlValidator url =
     (falsyOpt url \<or> (case url of None \<Rightarrow> False | Some u \<Rightarrow> matchSeq urlPattern u))"

subsection \<open>Field-level validation\<close>

text \<open>
  \<open>required\<close> on a string path fails when the value is absent or the empty string.
  A validation error names its path; a custom rule carries its message.  The
  library keeps the errors keyed by path; the list gives them as it visits the
  paths, the required ones first and in the reverse of their declaration (so
  \<open>bloomsLevel\<close> comes before \<open>learningObjective\<close>), and no statement below
  depends on that order.  The rule of \<open>feedback\<close> reads the purpose of the parent
  document.
\<close>

datatype Path = At string | AtElem string nat string

datatype ValidatorError = RequiredError Path | RuleError Path string

definition optionErrors :: "Purpose \<Rightarrow> nat \<times> MCQOption \<Rightarrow> ValidatorError list" where
  "optionErrors parentPurpose io =
     (case io of (i, opt) \<Rightarrow>
        (if parentPurpose = Formative \<and> falsyOpt (opt_feedback opt)
         then [RequiredError (AtElem ''options'' i ''feedback'')] else []) @
        (if opt_text opt = [] then [RequiredError (AtElem ''options'' i ''text'')] else []))"

definition itemErrors :: "nat \<times> OrderingItem \<Rightarrow> ValidatorError list" where
  "itemErrors ii =
     (case ii of (i, item) \<Rightarrow>
        (if item_text item = [] then [RequiredError (AtElem ''items'' i ''text'')] else []))"

text \<open>
  The schema also writes three rules on the number of sub-documents:
  \<open>optionsValidator\<close>, \<open>itemsValidator\<close> and \<open>zonesValidator\<close> are their functions,
  with \<open>this\<close> the document and the argument the array they are written for
  (\<open>options.length >= 2\<close>).  They are declared inside the description of the array
  element, \<open>[{ type: subSchema, validate: \<dots> }]\<close>, where the library takes the
  sub-document schema from \<open>type\<close> and registers no rule: no validation ever runs
  them.  \<open>validateDocument\<close> therefore does not contain them, and a document with
  too few options, items or zones passes the field-level validation.
\<close>

definition optionsValidator :: "QuestionDoc \<Rightarrow> MCQOption list \<Rightarrow> bool" where
  "optionsValidator this opts = (if doc_type this = Mcq then length opts \<ge> 2 else True)"

definition itemsValidator :: "QuestionDoc \<Rightarrow> OrderingItem list \<Rightarrow> bool" where
  "itemsValidator this its = (if doc_type this = Ordering then length its \<ge> 2 else True)"

definition zonesValidator :: "QuestionDoc \<Rightarrow> HotspotZone list \<Rightarrow> bool" where
  "zonesValidator this zs = (if doc_type this = Hotspot then length zs \<ge> 1 else True)"

definition validateDocument :: "QuestionDoc \<Rightarrow> ValidatorError list" where
  "validateDocument doc =
     (if doc_createdBy doc = None then [RequiredError (At ''createdBy'')] else []) @
     (if doc_purpose doc = Summative \<and> doc_bloomsLevel doc = None
      then [RequiredError (At ''bloomsLevel'')] else []) @
     (if doc_purpose doc = Summative \<and> falsyOpt (doc_learningObjective doc)
      then [RequiredError (At ''learningObjective'')] else []) @
     (if doc_stem doc = [] then [RequiredError (At ''stem'')] else []) @
     concat (map (optionErrors (doc_purpose doc)) (enumerate 0 (doc_options doc))) @
     concat (map itemErrors (enumerate 0 (doc_items doc))) @
     (if imageUrlValidator (doc_imageUrl doc) then []
      else [RuleError (At ''imageUrl'') ''Image URL must be a valid HTTP/HTTPS URL''])"

subsection \<open>The pre-save hook\<close>

text \<open>
  The hook returns through \<open>next(new Error(m))\<close> at the first violated invariant
  (\<open>Some m\<close>) and through \<open>next()\<close> otherwise (\<open>None\<close>).  \<open>ordersLoop\<close> is the
  \<open>for\<close> loop over the sorted order numbers.
\<close>

function ordersLoop :: "int list \<Rightarrow> nat \<Rightarrow> string option" where
  "ordersLoop orders i =
     (if i < length orders then
        (if orders ! i \<noteq> int i
         then Some ''Ordering items must have sequential order numbers starting from 0''
         else ordersLoop orders (Suc i))
      else None)"
  by pat_completeness auto
termination
  by (relation "measure (\<lambda>(orders, i). length orders - i)") auto

declare ordersLoop.simps [simp del]

definition preSave :: "QuestionDoc \<Rightarrow> string option" where
  "preSave this =
     (let mcqPart =
        (if doc_type this = Mcq then
           (let correctOptions = filter opt_isCorrect (doc_options this)
            in (if length correctOptions \<noteq> 1
                then Some ''MCQ questions must have exactly one correct option''
                else (if doc_purpose this = Formative then
                        (let missingFeedback =
                               list_ex (\<lambda>opt. falsyOpt (opt_feedback opt)) (doc_options this)
                         in (if missingFeedback
                             then Some ''Formative MCQ questions must have feedback for all options''
                             else None))
                      else None)))
         else None)
      in (case mcqPart of
            Some e \<Rightarrow> Some e
          | None \<Rightarrow>
              (if doc_type this = Ordering then
                 (let orders = sort (map item_order (doc_items this))
                  in ordersLoop orders 0)
               else None)))"

subsection \<open>Saving a document\<close>

text \<open>
  Saving assigns the received values to the paths (running the setters), validates
  the fields, and then runs the pre-save hook; the first stage that fails aborts the
  save, and nothing is stored.  On success the stored document is returned.
\<close>

datatype SaveError = ValidationFailed "ValidatorError list" | HookError string

definition save :: "QuestionDoc \<Rightarrow> SaveError + QuestionDoc" where
  "save raw =
     (let doc = castDocument raw; errs = validateDocument doc
      in (if errs \<noteq> [] then Inl (ValidationFailed errs)
          else (case preSave doc of
                  Some e \<Rightarrow> Inl (HookError e)
                | None \<Rightarrow> Inr doc)))"

text \<open>
  The repository has no code that sends a question of the editor to the persistence
  layer.  The request body follows the example in the schema file: the fields of the
  question, with the author reference and the tags added.
\<close>

definition toDocument :: "string option \<Rightarrow> string list \<Rightarrow> Question \<Rightarrow> QuestionDoc" where
  "toDocument author tags q =
     \<lparr>doc_type = qtype q, doc_purpose = purpose q, doc_stem = stem q, doc_topic = topic q,
      doc_learningObjective = learningObjective q, doc_bloomsLevel = bloomsLevel q,
      doc_createdBy = author, doc_tags = tags,
      doc_options = (case payload q of MCQ opts \<Rightarrow> opts | _ \<Rightarrow> []),
      doc_items = (case payload q of ORDERING its \<Rightarrow> its | _ \<Rightarrow> []),
      doc_zones = (case payload q of HOTSPOT zs _ _ \<Rightarrow> zs | _ \<Rightarrow> []),
      doc_imageUrl = (case payload q of HOTSPOT _ url _ \<Rightarrow> url | _ \<Rightarrow> None)\<rparr>"

section \<open>The editor (MainCanvas, OrderingQuestion, HotspotQuestion)\<close>

subsection \<open>Duplicating a question\<close>

text \<open>
  \<open>duplicateQuestion\<close> copies the question with the spread operator, replaces
  \<open>id\<close> by a fresh \<open>generateId()\<close> (the argument \<open>newId\<close>) and \<open>stem\<close> by the
  stem followed by \<open>" (Copy)"\<close>, appends the copy to the collection and selects it.
\<close>

definition duplicatedQuestion :: "Question \<Rightarrow> string \<Rightarrow> Question" where
  "duplicatedQuestion question newId =
     question\<lparr>qid := newId, stem := stem question @ '' (Copy)''\<rparr>"

definition duplicateQuestion :: "AssessmentState \<Rightarrow> Question \<Rightarrow> string \<Rightarrow> AssessmentState" where
  "duplicateQuestion st question newId =
     (let dup = duplicatedQuestion question newId
      in st\<lparr>questions := questions st @ [dup], currentQuestionId := Some (qid dup)\<rparr>)"

subsection \<open>Editing an ordering question\<close>

text \<open>
  The component receives an ordering question and reports each change as a new
  question.  \<open>itemsOf\<close> is \<open>question.items\<close> and \<open>withItems\<close> is
  \<open>{ ...question, items }\<close>.  \<open>renumber\<close> is
  \<open>.map((item, index) => ({ ...item, order: index }))\<close>.  The props of the
  component exclude questions of another type; on such a question \<open>itemsOf\<close> is
  empty in the model.
\<close>

definition itemsOf :: "Question \<Rightarrow> OrderingItem list" where
  "itemsOf question = (case payload question of ORDERING its \<Rightarrow> its | _ \<Rightarrow> [])"

definition withItems :: "Question \<Rightarrow> OrderingItem list \<Rightarrow> Question" where
  "withItems question its = question\<lparr>payload := ORDERING its\<rparr>"

definition renumber :: "OrderingItem list \<Rightarrow> OrderingItem list" where
  "renumber its = map (\<lambda>(index, item). item\<lparr>item_order := int index\<rparr>) (enumerate 0 its)"

definition updateStem :: "string \<Rightarrow> Question \<Rightarrow> Question" where
  "updateStem newStem question = question\<lparr>stem := newStem\<rparr>"

definition updateItem :: "string \<Rightarrow> string \<Rightarrow> Question \<Rightarrow> Question" where
  "updateItem itemId newText question =
     withItems question
       (map (\<lambda>item. if item_id item = itemId then item\<lparr>item_text := newText\<rparr> else item)
          (itemsOf question))"

definition addItem :: "string \<Rightarrow> Question \<Rightarrow> Question" where
  "addItem newId question =
     (let newItem = \<lparr>item_id = newId, item_text = [],
                      item_order = int (length (itemsOf question))\<rparr>
      in withItems question (itemsOf question @ [newItem]))"

definition removeItem :: "string \<Rightarrow> Question \<Rightarrow> Question" where
  "removeItem itemId question =
     (if length (itemsOf question) > 2 then
        withItems question
          (renumber (filter (\<lambda>item. item_id item \<noteq> itemId) (itemsOf question)))
      else question)"

text \<open>
  \<open>findIndex\<close> gives the first index whose element satisfies the predicate, or \<open>-1\<close>.
\<close>

fun findIndexFrom :: "('a \<Rightarrow> bool) \<Rightarrow> 'a list \<Rightarrow> int \<Rightarrow> int" where
  "findIndexFrom P [] i = -1"
| "findIndexFrom P (x # xs) i = (if P x then i else findIndexFrom P xs (i + 1))"

definition findIndex :: "('a \<Rightarrow> bool) \<Rightarrow> 'a list \<Rightarrow> int" where
  "findIndex P xs = findIndexFrom P xs 0"

text \<open>
  \<open>handleDragEnd\<close> receives the drag event of the drag-and-drop library: the id of
  the dragged item and, when it was dropped on an item, the id of that item.  With
  no drop target \<open>over\<close> is \<open>null\<close> and reading \<open>over.id\<close> throws (the \<open>Inl\<close>
  result); nothing is reported then.  \<open>arrayMove\<close> belongs to the library and is a
  parameter \<open>mv\<close> of the model.
\<close>

definition handleDragEnd ::
  "(OrderingItem list \<Rightarrow> int \<Rightarrow> int \<Rightarrow> OrderingItem list) \<Rightarrow> string \<Rightarrow> string option
     \<Rightarrow> Question \<Rightarrow> string + Question" where
  "handleDragEnd mv activeId over question =
     (case over of
        None \<Rightarrow> Inl ''TypeError: Cannot read properties of null''
      | Some overId \<Rightarrow>
          (if activeId \<noteq> overId then
             (let oldIndex = findIndex (\<lambda>item. item_id item = activeId) (itemsOf question);
                  newIndex = findIndex (\<lambda>item. item_id item = overId) (itemsOf question);
                  reorderedItems = renumber (mv (itemsOf question) oldIndex newIndex)
              in Inr (withItems question reorderedItems))
           else Inr question))"

text \<open>
  \<open>arrayMove(array, from, to)\<close> of the library copies the array, removes the
  element at \<open>from\<close> with \<open>splice(from, 1)\<close> and inserts it with
  \<open>splice(to < 0 ? length + to : to, 0, element)\<close>, where the length is read before
  the removal.  \<open>spliceStart\<close> is the start index that \<open>splice\<close> makes of its first
  argument: a negative one counts from the end, and the result is clamped to the
  array.  So \<open>from = -1\<close>, the result of a failed \<open>findIndex\<close>, moves the last
  element.  When nothing is removed (an empty array, or \<open>from\<close> past the end,
  which \<open>findIndex\<close> never returns) the library inserts \<open>undefined\<close>, which is no
  element of a list of the model; the model returns the list as it is there.
\<close>

definition spliceStart :: "nat \<Rightarrow> int \<Rightarrow> nat" where
  "spliceStart len start = (if start < 0 then nat (max (int len + start) 0) else min (nat start) len)"

definition arrayMove :: "'a list \<Rightarrow> int \<Rightarrow> int \<Rightarrow> 'a list" where
  "arrayMove xs from to =
     (let target = (if to < 0 then int (length xs) + to else to);
          f = spliceStart (length xs) from
      in (if f < length xs then
            (let rest = take f xs @ drop (Suc f) xs;
                 t = spliceStart (length rest) target
             in take t rest @ [xs ! f] @ drop t rest)
          else xs))"

text \<open>
  The question editor around the component changes the purpose and the metadata
  fields: \<open>updatePurpose\<close>, and \<open>updateMetadata\<close> called for \<open>topic\<close>,
  \<open>learningObjective\<close> and \<open>bloomsLevel\<close> with the value of the input.
\<close>

definition updatePurpose :: "Purpose \<Rightarrow> Question \<Rightarrow> Question" where
  "updatePurpose newPurpose question = question\<lparr>purpose := newPurpose\<rparr>"

datatype Metadata = Topic string | LearningObjective string | Blooms BloomsLevel

fun updateMetadata :: "Metadata \<Rightarrow> Question \<Rightarrow> Question" where
  "updateMetadata (Topic v) question = question\<lparr>topic := Some v\<rparr>"
| "updateMetadata (LearningObjective v) question = question\<lparr>learningObjective := Some v\<rparr>"
| "updateMetadata (Blooms v) question = question\<lparr>bloomsLevel := Some v\<rparr>"

text \<open>
  The questions an author can reach in the ordering editor: a fresh ordering
  question, changed by any sequence of the operations of the component and of the
  purpose and metadata updates.
\<close>

inductive orderingEdited ::
  "(OrderingItem list \<Rightarrow> int \<Rightarrow> int \<Rightarrow> OrderingItem list) \<Rightarrow> Question \<Rightarrow> bool"
  for mv where
    created: "createEmptyQuestion gen ''ordering'' = Inr q \<Longrightarrow> orderingEdited mv q"
  | stem_updated: "orderingEdited mv q \<Longrightarrow> orderingEdited mv (updateStem s q)"
  | purpose_updated: "orderingEdited mv q \<Longrightarrow> orderingEdited mv (updatePurpose p q)"
  | metadata_updated: "orderingEdited mv q \<Longrightarrow> orderingEdited mv (updateMetadata m q)"
  | item_updated: "orderingEdited mv q \<Longrightarrow> orderingEdited mv (updateItem i t q)"
  | item_added: "orderingEdited mv q \<Longrightarrow> orderingEdited mv (addItem i q)"
  | item_removed: "orderingEdited mv q \<Longrightarrow> orderingEdited mv (removeItem i q)"
  | dragged: "orderingEdited mv q \<Longrightarrow> handleDragEnd mv a ov q = Inr q'
               \<Longrightarrow> orderingEdited mv q'"

subsection \<open>Drawing a hotspot zone\<close>

text \<open>
  The hotspot component keeps the points clicked so far (\<open>currentZone\<close>) and the
  flag \<open>isDrawing\<close> beside the question.  \<open>finishZone\<close> turns the points into a new
  zone when there are at least three, and always clears the drawing state.
  \<open>zonesOf\<close> is \<open>question.zones\<close> and \<open>withZones\<close> is \<open>{ ...question, zones }\<close>;
  \<open>showNat\<close> is the decimal numeral of the template literal.
\<close>

fun showNat :: "nat \<Rightarrow> string" where
  "showNat n =
     (if n < 10 then [char_of (48 + n)]
      else showNat (n div 10) @ [char_of (48 + n mod 10)])"

declare showNat.simps [simp del]

definition zonesOf :: "Question \<Rightarrow> HotspotZone list" where
  "zonesOf question = (case payload question of HOTSPOT zs _ _ \<Rightarrow> zs | _ \<Rightarrow> [])"

definition withZones :: "Question \<Rightarrow> HotspotZone list \<Rightarrow> Question" where
  "withZones question zs =
     (case payload question of
        HOTSPOT _ url file \<Rightarrow> question\<lparr>payload := HOTSPOT zs url file\<rparr>
      | _ \<Rightarrow> question\<lparr>payload := HOTSPOT zs None None\<rparr>)"

record HotspotEditor =
  he_question :: Question
  he_currentZone :: "(int \<times> int) list"
  he_isDrawing :: bool

definition finishZone :: "string \<Rightarrow> HotspotEditor \<Rightarrow> HotspotEditor" where
  "finishZone newId ed =
     (let question = he_question ed; currentZone = he_currentZone ed;
          question' =
            (if length currentZone \<ge> 3 then
               (let newZone = \<lparr>zone_id = newId, zone_coordinates = currentZone,
                                zone_label = Some (''Zone '' @ showNat (length (zonesOf question) + 1))\<rparr>
                in withZones question (zonesOf question @ [newZone]))
             else question)
      in \<lparr>he_question = question', he_currentZone = [], he_isDrawing = False\<rparr>)"

section \<open>Example documents\<close>

text \<open>
  The request body given as an example in the schema file: a formative
  multiple-choice question with three options, one of them correct, each with
  feedback.  The other examples are variations of it.
\<close>

definition exampleOptions :: "MCQOption list" where
  "exampleOptions =
     [\<lparr>opt_id = ''o1'', opt_text = ''Red'', opt_isCorrect = True,
       opt_feedback = Some ''Correct! Red, Green, and Blue are the primary colors of light.''\<rparr>,
      \<lparr>opt_id = ''o2'', opt_text = ''Yellow'', opt_isCorrect = False,
       opt_feedback = Some ''Incorrect. Yellow is a primary color in subtractive models.''\<rparr>,
      \<lparr>opt_id = ''o3'', opt_text = ''Black'', opt_isCorrect = False,
       opt_feedback = Some ''Incorrect. Black is the absence of light.''\<rparr>]"

definition exampleDoc :: QuestionDoc where
  "exampleDoc =
     \<lparr>doc_type = Mcq, doc_purpose = Formative,
      doc_stem = ''Which of the following is a primary color in the additive (RGB) color model?'',
      doc_topic = Some ''Color Theory'', doc_learningObjective = None, doc_bloomsLevel = None,
      doc_createdBy = Some ''65ab4f2e9c1234567890abcd'', doc_tags = [''design'', ''basics''],
      doc_options = exampleOptions, doc_items = [], doc_zones = [], doc_imageUrl = None\<rparr>"

text \<open>The same question with the feedback of the second option cleared.\<close>

definition noFeedbackDoc :: QuestionDoc where
  "noFeedbackDoc =
     exampleDoc\<lparr>doc_options := (exampleOptions[1 := (exampleOptions ! 1)\<lparr>opt_feedback := Some ''''\<rparr>])\<rparr>"

text \<open>An ordering document whose items carry the given order numbers.\<close>

definition orderingDoc :: "int list \<Rightarrow> QuestionDoc" where
  "orderingDoc orders =
     exampleDoc\<lparr>doc_type := Ordering, doc_options := [],
       doc_items := map (\<lambda>n. \<lparr>item_id = ''i'', item_text = ''step'', item_order = n\<rparr>) orders\<rparr>"

text \<open>The same question with the first two options both marked correct.\<close>

definition twoCorrectDoc :: QuestionDoc where
  "twoCorrectDoc =
     exampleDoc\<lparr>doc_options := (exampleOptions[1 := (exampleOptions ! 1)\<lparr>opt_isCorrect := True\<rparr>])\<rparr>"

text \<open>A hotspot document with one triangular zone and the given image URL.\<close>

definition exampleZone :: HotspotZone where
  "exampleZone =
     \<lparr>zone_id = ''z1'', zone_coordinates = [(100, 100), (200, 100), (200, 200)],
      zone_label = Some ''Zone 1''\<rparr>"

definition hotspotDoc :: "string option \<Rightarrow> QuestionDoc" where
  "hotspotDoc url =
     exampleDoc\<lparr>doc_type := Hotspot, doc_options := [], doc_zones := [exampleZone],
       doc_imageUrl := url\<rparr>"

text \<open>The example document as a summative question with a blank learning objective.\<close>

definition summativeDoc :: QuestionDoc where
  "summativeDoc =
     exampleDoc\<lparr>doc_purpose := Summative, doc_learningObjective := Some ''  '',
       doc_bloomsLevel := Some Remember\<rparr>"

section \<open>Example questions\<close>

text \<open>
  Questions as the editor holds them: a summative multiple-choice question with its
  learning objective left blank, the example question of the schema file as a
  formative question with one feedback cleared, and a hotspot question without zones.
\<close>

definition exampleQuestion :: Question where
  "exampleQuestion =
     \<lparr>qid = ''q1'', purpose = Formative,
      stem = ''Which of the following is a primary color in the additive (RGB) color model?'',
      topic = Some ''Color Theory'', learningObjective = None, bloomsLevel = None,
      payload = MCQ exampleOptions\<rparr>"

definition summativeQuestion :: Question where
  "summativeQuestion =
     exampleQuestion\<lparr>purpose := Summative, learningObjective := Some ''  '',
       bloomsLevel := Some Remember\<rparr>"

definition noFeedbackQuestion :: Question where
  "noFeedbackQuestion =
     exampleQuestion\<lparr>payload :=
       MCQ (exampleOptions[1 := (exampleOptions ! 1)\<lparr>opt_feedback := None\<rparr>])\<rparr>"

definition noZoneQuestion :: Question where
  "noZoneQuestion = exampleQuestion\<lparr>payload := HOTSPOT [] (Some []) None\<rparr>"

text \<open>
  The hotspot editor holding a question with one zone, while the author has
  clicked two points, and after a third click.
\<close>

definition twoPointEditor :: HotspotEditor where
  "twoPointEditor =
     \<lparr>he_question = exampleQuestion\<lparr>payload := HOTSPOT [exampleZone] (Some []) None\<rparr>,
      he_currentZone = [(10, 10), (50, 10)], he_isDrawing = True\<rparr>"

definition threePointEditor :: HotspotEditor where
  "threePointEditor = twoPointEditor\<lparr>he_currentZone := [(10, 10), (50, 10), (30, 40)]\<rparr>"

text \<open>The example question with its first two options both marked correct.\<close>

definition twoCorrectQuestion :: Question where
  "twoCorrectQuestion =
     exampleQuestion\<lparr>payload :=
       MCQ (exampleOptions[1 := (exampleOptions ! 1)\<lparr>opt_isCorrect := True\<rparr>])\<rparr>"

text \<open>A hotspot question with one zone whose stem has not been written yet.\<close>

definition blankStemQuestion :: Question where
  "blankStemQuestion =
     \<lparr>qid = ''k3x9q0z1a'', purpose = Formative, stem = [], topic = None,
      learningObjective = None, bloomsLevel = None,
      payload = HOTSPOT [exampleZone] (Some []) None\<rparr>"

text \<open>
  A run of the ordering editor: a fresh ordering question (with the ids drawn for
  it), a fourth item added, the first item dragged onto the third, and the item
  \<open>n2\<close> removed.
\<close>

definition exampleIds :: "nat \<Rightarrow> string" where
  "exampleIds n = [''n0'', ''n1'', ''n2'', ''n3'', ''n4''] ! n"

definition freshOrdering :: Question where
  "freshOrdering =
     baseQuestion ''n0'' (ORDERING [stubItem ''n1'' 0, stubItem ''n2'' 1, stubItem ''n3'' 2])"

definition draggedOrdering :: Question where
  "draggedOrdering =
     withItems freshOrdering
       [stubItem ''n2'' 0, stubItem ''n3'' 1, stubItem ''n4'' 2, stubItem ''n1'' 3]"

text \<open>The hotspot question without zones as it is sent to the schema.\<close>

definition zeroZoneDoc :: QuestionDoc where
  "zeroZoneDoc = toDocument (Some ''65ab4f2e9c1234567890abcd'') [''design'', ''basics''] noZoneQuestion"

section \<open>Properties\<close>

subsection \<open>Auxiliary facts\<close>

lemma dropWhile_all_iff: "(\<forall>x\<in>set (dropWhile P xs). P x) \<longleftrightarrow> (\<forall>x\<in>set xs. P x)"
  by (induction xs) auto

lemma trim_empty_iff: "trim s = [] \<longleftrightarrow> list_all isWhiteSpace s"
  by (simp add: trim_def dropWhile_eq_Nil_conv dropWhile_all_iff list_all_iff)

lemma trim_Nil [simp]: "trim [] = []"
  by (simp add: trim_def)

lemma blankOpt_iff_falsy_trim: "falsyOpt (map_option trim x) = blankOpt x"
  by (cases x) simp_all

lemma ordersLoop_None_iff:
  "ordersLoop orders i = None \<longleftrightarrow> (\<forall>j. i \<le> j \<and> j < length orders \<longrightarrow> orders ! j = int j)"
proof (induction orders i rule: ordersLoop.induct)
  case (1 orders i)
  show ?case
  proof (cases "i < length orders")
    case False
    then show ?thesis by (simp add: ordersLoop.simps)
  next
    case True
    show ?thesis
    proof (cases "orders ! i = int i")
      case False
      with True show ?thesis by (auto simp: ordersLoop.simps [of orders i])
    next
      case eq: True
      have "(\<forall>j. i \<le> j \<and> j < length orders \<longrightarrow> orders ! j = int j)
            \<longleftrightarrow> (\<forall>j. Suc i \<le> j \<and> j < length orders \<longrightarrow> orders ! j = int j)"
        using eq by (metis Suc_leD Suc_leI le_neq_implies_less)
      with True eq 1 show ?thesis by (simp add: ordersLoop.simps [of orders i])
    qed
  qed
qed

lemma ordersLoop_result:
  "ordersLoop orders i = None \<or>
   ordersLoop orders i = Some ''Ordering items must have sequential order numbers starting from 0''"
proof (induction orders i rule: ordersLoop.induct)
  case (1 orders i)
  show ?case
  proof (cases "i < length orders \<and> orders ! i = int i")
    case True
    then have "ordersLoop orders i = ordersLoop orders (Suc i)"
      by (simp add: ordersLoop.simps [of orders i])
    with True 1 show ?thesis by simp
  next
    case False
    then show ?thesis
      by (auto simp: ordersLoop.simps [of orders i])
  qed
qed

lemma ordersLoop_zero_iff:
  "ordersLoop orders 0 = None \<longleftrightarrow> orders = map int [0..<length orders]"
proof
  assume "ordersLoop orders 0 = None"
  then have "\<forall>j<length orders. orders ! j = int j"
    by (simp add: ordersLoop_None_iff)
  then show "orders = map int [0..<length orders]"
    by (intro nth_equalityI) simp_all
next
  assume eq: "orders = map int [0..<length orders]"
  have "\<forall>j<length orders. orders ! j = int j"
  proof (intro allI impI)
    fix j assume "j < length orders"
    then have "map int [0..<length orders] ! j = int j" by simp
    with eq show "orders ! j = int j" by simp
  qed
  then show "ordersLoop orders 0 = None"
    by (simp add: ordersLoop_None_iff)
qed

lemma sorted_map_int_upt: "sorted (map int [m..<n])"
  by (simp add: sorted_wrt_map sorted_wrt_iff_nth_less)

lemma sort_eq_upt_iff_mset:
  "sort xs = map int [0..<length xs] \<longleftrightarrow> mset xs = mset (map int [0..<length xs])"
proof
  assume "sort xs = map int [0..<length xs]"
  then have "mset (sort xs) = mset (map int [0..<length xs])" by simp
  then show "mset xs = mset (map int [0..<length xs])" by simp
next
  assume "mset xs = mset (map int [0..<length xs])"
  then show "sort xs = map int [0..<length xs]"
    by (metis properties_for_sort sorted_map_int_upt)
qed

lemma optionErrors_concat_Nil:
  "concat (map (optionErrors p) (enumerate n opts)) = [] \<longleftrightarrow>
     list_all (\<lambda>opt. opt_text opt \<noteq> [] \<and> \<not> (p = Formative \<and> falsyOpt (opt_feedback opt))) opts"
  by (induction opts arbitrary: n) (auto simp: optionErrors_def)

lemma itemErrors_concat_Nil:
  "concat (map itemErrors (enumerate n its)) = [] \<longleftrightarrow> list_all (\<lambda>item. item_text item \<noteq> []) its"
  by (induction its arbitrary: n) (auto simp: itemErrors_def)

lemma castDocument_type [simp]: "doc_type (castDocument raw) = doc_type raw"
  and castDocument_purpose [simp]: "doc_purpose (castDocument raw) = doc_purpose raw"
  and castDocument_createdBy [simp]: "doc_createdBy (castDocument raw) = doc_createdBy raw"
  and castDocument_bloomsLevel [simp]: "doc_bloomsLevel (castDocument raw) = doc_bloomsLevel raw"
  by (simp_all add: castDocument_def)

lemma castDocument_orders [simp]:
  "map item_order (doc_items (castDocument raw)) = map item_order (doc_items raw)"
  by (simp add: castDocument_def castItem_def comp_def)

lemma castDocument_items_length [simp]:
  "length (doc_items (castDocument raw)) = length (doc_items raw)"
  by (simp add: castDocument_def)

lemma castDocument_correct [simp]:
  "length (filter opt_isCorrect (doc_options (castDocument raw))) =
   length (filter opt_isCorrect (doc_options raw))"
proof -
  have "length (filter opt_isCorrect (map castOption opts)) = length (filter opt_isCorrect opts)" for opts
    by (induction opts) (simp_all add: castOption_def)
  then show ?thesis by (simp add: castDocument_def)
qed

lemma preSave_ordering:
  "doc_type d = Ordering \<Longrightarrow> preSave d = ordersLoop (sort (map item_order (doc_items d))) 0"
  by (simp add: preSave_def)

lemma preSave_mcq:
  "doc_type d = Mcq \<Longrightarrow> preSave d =
     (if length (filter opt_isCorrect (doc_options d)) \<noteq> 1
      then Some ''MCQ questions must have exactly one correct option''
      else if doc_purpose d = Formative \<and> list_ex (\<lambda>opt. falsyOpt (opt_feedback opt)) (doc_options d)
      then Some ''Formative MCQ questions must have feedback for all options''
      else None)"
  by (simp add: preSave_def Let_def)

lemma preSave_hotspot: "doc_type d = Hotspot \<Longrightarrow> preSave d = None"
  by (simp add: preSave_def)

lemma save_Inr_iff:
  "(\<exists>stored. save raw = Inr stored) \<longleftrightarrow>
     validateDocument (castDocument raw) = [] \<and> preSave (castDocument raw) = None"
  by (auto simp: save_def Let_def split: option.splits)

lemma save_Inr_stored: "save raw = Inr stored \<Longrightarrow> stored = castDocument raw"
  by (auto simp: save_def Let_def split: option.splits if_splits)

lemma validateDocument_Nil_options:
  assumes "validateDocument d = []"
  shows "list_all (\<lambda>opt. opt_text opt \<noteq> [] \<and>
            \<not> (doc_purpose d = Formative \<and> falsyOpt (opt_feedback opt))) (doc_options d)"
proof -
  from assms have "concat (map (optionErrors (doc_purpose d)) (enumerate 0 (doc_options d))) = []"
    by (simp add: validateDocument_def)
  then show ?thesis by (simp only: optionErrors_concat_Nil)
qed

lemma validateDocument_Nil_feedback:
  assumes "validateDocument d = []" and "doc_purpose d = Formative"
  shows "\<not> list_ex (\<lambda>opt. falsyOpt (opt_feedback opt)) (doc_options d)"
  using validateDocument_Nil_options [OF assms(1)] assms(2)
  by (auto simp: list_all_iff list_ex_iff)

lemmas ex_defs = exampleDoc_def exampleOptions_def noFeedbackDoc_def orderingDoc_def
  twoCorrectDoc_def
lemmas schema_defs = save_def castDocument_def castOption_def castItem_def castZone_def
  validateDocument_def optionErrors_def itemErrors_def optionsValidator_def itemsValidator_def
  zonesValidator_def imageUrlValidator_def preSave_def trim_def isWhiteSpace_def

lemma matchSeq_Once_Chr:
  "matchSeq ((Chr x, Once) # r) s \<longleftrightarrow> (\<exists>cs. s = x # cs \<and> matchSeq r cs)"
  by (cases s) auto

lemma matchSeq_Optional_Chr:
  "matchSeq ((Chr x, Optional) # r) s \<longleftrightarrow> (\<exists>cs. s = x # cs \<and> matchSeq r cs) \<or> matchSeq r s"
  by (cases s) auto

lemma matchSeq_Dot_OneOrMore:
  "matchSeq [(Dot, OneOrMore)] s \<longleftrightarrow> (\<exists>c cs. s = c # cs \<and> \<not> isLineTerminator c)"
  by (cases s) auto

lemma matchSeq_urlPattern:
  "matchSeq urlPattern u \<longleftrightarrow>
     (\<exists>c rest. \<not> isLineTerminator c \<and> (u = ''http://'' @ c # rest \<or> u = ''https://'' @ c # rest))"
  unfolding urlPattern_def
  by (simp only: matchSeq_Once_Chr matchSeq_Optional_Chr matchSeq_Dot_OneOrMore) auto

lemma RuleError_notin_optionErrors:
  "RuleError p m \<notin> set (optionErrors pu x)"
  by (cases x) (simp add: optionErrors_def)

lemma RuleError_notin_itemErrors:
  "RuleError p m \<notin> set (itemErrors x)"
  by (cases x) (simp add: itemErrors_def)

lemma imageUrl_error_iff:
  "RuleError (At ''imageUrl'') ''Image URL must be a valid HTTP/HTTPS URL'' \<in> set (validateDocument d)
     \<longleftrightarrow> \<not> imageUrlValidator (doc_imageUrl d)"
  by (simp add: validateDocument_def RuleError_notin_optionErrors RuleError_notin_itemErrors)

lemma validateQuestion_errors:
  "errors (validateQuestion q) =
     (if trim (stem q) = [] then [''Question stem is required''] else []) @
     (if purpose q = Summative \<and> blankOpt (learningObjective q)
      then [''Learning objective is required for summative questions''] else []) @
     (if purpose q = Summative \<and> bloomsLevel q = None
      then [''Bloom's level is required for summative questions''] else []) @
     (case payload q of
        MCQ opts \<Rightarrow>
          (if \<not> list_ex opt_isCorrect opts
           then [''At least one option must be marked as correct''] else []) @
          (if list_ex (\<lambda>opt. trim (opt_text opt) = []) opts
           then [''All options must have text''] else []) @
          (if purpose q = Formative \<and> list_ex (\<lambda>opt. blankOpt (opt_feedback opt)) opts
           then [''All options must have feedback for formative questions''] else [])
      | ORDERING its \<Rightarrow>
          (if list_ex (\<lambda>item. trim (item_text item) = []) its
           then [''All items must have text''] else []) @
          (if length its < 2 then [''Ordering questions must have at least 2 items''] else [])
      | HOTSPOT zs url file \<Rightarrow>
          (if zs = [] then [''At least one hotspot zone is required''] else []))"
  by (cases "payload q") (simp_all add: validateQuestion_def Let_def)

lemma isValid_errors: "isValid (validateQuestion q) \<longleftrightarrow> errors (validateQuestion q) = []"
  by (simp add: validateQuestion_def Let_def)

lemma isValid_iff:
  "isValid (validateQuestion q) \<longleftrightarrow>
     trim (stem q) \<noteq> [] \<and>
     (purpose q = Summative \<longrightarrow> \<not> blankOpt (learningObjective q) \<and> bloomsLevel q \<noteq> None) \<and>
     (case payload q of
        MCQ opts \<Rightarrow>
          list_ex opt_isCorrect opts \<and> \<not> list_ex (\<lambda>opt. trim (opt_text opt) = []) opts \<and>
          (purpose q = Formative \<longrightarrow> \<not> list_ex (\<lambda>opt. blankOpt (opt_feedback opt)) opts)
      | ORDERING its \<Rightarrow> \<not> list_ex (\<lambda>item. trim (item_text item) = []) its \<and> 2 \<le> length its
      | HOTSPOT zs url file \<Rightarrow> zs \<noteq> [])"
  unfolding isValid_errors validateQuestion_errors
  by (cases "payload q") auto

lemma objective_error_iff:
  "''Learning objective is required for summative questions'' \<in> set (errors (validateQuestion q))
     \<longleftrightarrow> purpose q = Summative \<and> blankOpt (learningObjective q)"
  unfolding validateQuestion_errors
  by (cases "payload q") simp_all

lemma feedback_error_iff:
  "''All options must have feedback for formative questions'' \<in> set (errors (validateQuestion q))
     \<longleftrightarrow> purpose q = Formative \<and>
         (\<exists>opts. payload q = MCQ opts \<and> list_ex (\<lambda>opt. blankOpt (opt_feedback opt)) opts)"
  unfolding validateQuestion_errors
  by (cases "payload q") simp_all

lemma zone_error_iff:
  "''At least one hotspot zone is required'' \<in> set (errors (validateQuestion q))
     \<longleftrightarrow> (\<exists>url file. payload q = HOTSPOT [] url file)"
  unfolding validateQuestion_errors
  by (cases "payload q") simp_all

lemma stem_error_iff:
  "''Question stem is required'' \<in> set (errors (validateQuestion q)) \<longleftrightarrow> trim (stem q) = []"
  unfolding validateQuestion_errors
  by (cases "payload q") simp_all

lemma save_ValidationFailed:
  "e \<in> set (validateDocument (castDocument d)) \<Longrightarrow>
     save d = Inl (ValidationFailed (validateDocument (castDocument d)))"
  by (auto simp: save_def Let_def)

lemma feedback_required_iff:
  "RequiredError (AtElem ''options'' i ''feedback'') \<in> set (concat (map (optionErrors p) (enumerate 0 opts)))
     \<longleftrightarrow> i < length opts \<and> p = Formative \<and> falsyOpt (opt_feedback (opts ! i))"
  by (auto simp: optionErrors_def in_set_enumerate_eq split: if_splits)

lemma RequiredError_feedback_notin_itemErrors:
  "RequiredError (AtElem ''options'' i ''feedback'') \<notin> set (concat (map itemErrors xs))"
  by (auto simp: itemErrors_def split: if_splits)

lemma validateDocument_feedback_iff:
  "RequiredError (AtElem ''options'' i ''feedback'') \<in> set (validateDocument d)
     \<longleftrightarrow> i < length (doc_options d) \<and> doc_purpose d = Formative
         \<and> falsyOpt (opt_feedback (doc_options d ! i))"
proof -
  have "RequiredError (AtElem ''options'' i ''feedback'') \<in> set (validateDocument d)
     \<longleftrightarrow> RequiredError (AtElem ''options'' i ''feedback'')
           \<in> set (concat (map (optionErrors (doc_purpose d)) (enumerate 0 (doc_options d))))"
    unfolding validateDocument_def
    by (simp add: RequiredError_feedback_notin_itemErrors del: set_concat)
  then show ?thesis by (simp only: feedback_required_iff)
qed

lemma validateDocument_objective_iff:
  "RequiredError (At ''learningObjective'') \<in> set (validateDocument d)
     \<longleftrightarrow> doc_purpose d = Summative \<and> falsyOpt (doc_learningObjective d)"
proof -
  have "RequiredError (At ''learningObjective'') \<notin> set (optionErrors p x)" for p x
    by (cases x) (simp add: optionErrors_def)
  moreover have "RequiredError (At ''learningObjective'') \<notin> set (itemErrors x)" for x
    by (cases x) (simp add: itemErrors_def)
  ultimately show ?thesis
    unfolding validateDocument_def by simp
qed

lemma castOption_feedback: "opt_feedback (castOption opt) = map_option trim (opt_feedback opt)"
  by (simp add: castOption_def)

lemma castDocument_options_length [simp]:
  "length (doc_options (castDocument d)) = length (doc_options d)"
  by (simp add: castDocument_def)

lemma castDocument_option_feedback:
  "i < length (doc_options d) \<Longrightarrow>
     falsyOpt (opt_feedback (doc_options (castDocument d) ! i)) = blankOpt (opt_feedback (doc_options d ! i))"
  by (simp add: castDocument_def castOption_feedback blankOpt_iff_falsy_trim)

lemma castDocument_objective:
  "falsyOpt (doc_learningObjective (castDocument d)) = blankOpt (doc_learningObjective d)"
  by (simp add: castDocument_def blankOpt_iff_falsy_trim)

lemma castDocument_zones_Nil [simp]: "doc_zones (castDocument d) = [] \<longleftrightarrow> doc_zones d = []"
  by (simp add: castDocument_def)

lemma castDocument_missing_feedback:
  "list_ex (\<lambda>opt. falsyOpt (opt_feedback opt)) (doc_options (castDocument d)) =
   list_ex (\<lambda>opt. blankOpt (opt_feedback opt)) (doc_options d)"
  by (simp add: castDocument_def list_ex_iff castOption_feedback blankOpt_iff_falsy_trim)

text \<open>Changing the feedback of the options.\<close>

lemma optionErrors_summative_feedback:
  "concat (map (optionErrors Summative) (enumerate n (map (castOption \<circ> (\<lambda>opt. opt\<lparr>opt_feedback := f opt\<rparr>)) opts)))
   = concat (map (optionErrors Summative) (enumerate n (map castOption opts)))"
  by (induction opts arbitrary: n) (simp_all add: optionErrors_def castOption_def)

lemma validateDocument_summative_feedback:
  assumes "doc_purpose d = Summative"
  shows "validateDocument (castDocument (d\<lparr>doc_options := map (\<lambda>opt. opt\<lparr>opt_feedback := f opt\<rparr>) (doc_options d)\<rparr>))
       = validateDocument (castDocument d)"
  using assms
  by (simp add: validateDocument_def castDocument_def optionErrors_summative_feedback
      optionsValidator_def itemsValidator_def zonesValidator_def)

lemma preSave_summative_feedback:
  assumes "doc_purpose d = Summative"
  shows "preSave (castDocument (d\<lparr>doc_options := map (\<lambda>opt. opt\<lparr>opt_feedback := f opt\<rparr>) (doc_options d)\<rparr>))
       = preSave (castDocument d)"
proof -
  have "filter opt_isCorrect (map castOption (map (\<lambda>opt. opt\<lparr>opt_feedback := f opt\<rparr>) opts))
      = map castOption (map (\<lambda>opt. opt\<lparr>opt_feedback := f opt\<rparr>) (filter opt_isCorrect opts))" for opts
    by (induction opts) (simp_all add: castOption_def)
  moreover have "filter opt_isCorrect (map castOption opts) = map castOption (filter opt_isCorrect opts)" for opts
    by (induction opts) (simp_all add: castOption_def)
  ultimately show ?thesis
    using assms by (simp add: preSave_def castDocument_def Let_def)
qed

lemma validateQuestion_summative_feedback:
  assumes "purpose q = Summative" and "payload q = MCQ opts"
  shows "validateQuestion (q\<lparr>payload := MCQ (map (\<lambda>opt. opt\<lparr>opt_feedback := f opt\<rparr>) opts)\<rparr>)
       = validateQuestion q"
  using assms
  by (simp add: validateQuestion_def Let_def list_ex_iff)

subsection \<open>Creation\<close>

text \<open>
  Claim C7, as stated: for each of the three types \<open>createEmptyQuestion\<close> returns a
  question with between 2 and 4 stub sub-items.  This fails for a hotspot question,
  which is created with no zone at all.
\<close>

theorem createEmptyQuestion_hotspot_no_stub:
  "\<not> (\<forall>ty. \<exists>q. createEmptyQuestion (\<lambda>n. ''id'') (typeName ty) = Inr q
        \<and> 2 \<le> subItemCount (payload q) \<and> subItemCount (payload q) \<le> 4)"
proof
  assume "\<forall>ty. \<exists>q. createEmptyQuestion (\<lambda>n. ''id'') (typeName ty) = Inr q
        \<and> 2 \<le> subItemCount (payload q) \<and> subItemCount (payload q) \<le> 4"
  then obtain q where "createEmptyQuestion (\<lambda>n. ''id'') (typeName Hotspot) = Inr q"
    and "2 \<le> subItemCount (payload q)"
    by blast
  then show False
    by (auto simp: createEmptyQuestion_def baseQuestion_def)
qed

text \<open>
  Claim C7, amended: for every type, \<open>createEmptyQuestion\<close> returns (does not throw)
  a question of that type whose id is the first id drawn, formative, with an empty
  stem and without topic, learning objective and Bloom's level.  A multiple-choice
  question has 4 stub options (the next four ids, empty text, no feedback, only the
  second one marked correct); an ordering question has 3 stub items (the next three
  ids, empty text, orders 0, 1, 2); a hotspot question has no zone, the empty
  string as image URL and no image file.
\<close>

theorem createEmptyQuestion_stub_counts:
  "createEmptyQuestion gen (typeName ty) =
     Inr \<lparr>qid = gen 0, purpose = Formative, stem = [], topic = None,
          learningObjective = None, bloomsLevel = None,
          payload =
            (case ty of
               Mcq \<Rightarrow>
                 MCQ [\<lparr>opt_id = gen 1, opt_text = [], opt_isCorrect = False, opt_feedback = None\<rparr>,
                      \<lparr>opt_id = gen 2, opt_text = [], opt_isCorrect = True, opt_feedback = None\<rparr>,
                      \<lparr>opt_id = gen 3, opt_text = [], opt_isCorrect = False, opt_feedback = None\<rparr>,
                      \<lparr>opt_id = gen 4, opt_text = [], opt_isCorrect = False, opt_feedback = None\<rparr>]
             | Ordering \<Rightarrow>
                 ORDERING [\<lparr>item_id = gen 1, item_text = [], item_order = 0\<rparr>,
                           \<lparr>item_id = gen 2, item_text = [], item_order = 1\<rparr>,
                           \<lparr>item_id = gen 3, item_text = [], item_order = 2\<rparr>]
             | Hotspot \<Rightarrow> HOTSPOT [] (Some []) None)\<rparr>
   \<and> (\<exists>q. createEmptyQuestion gen (typeName ty) = Inr q
       \<and> qtype q = ty \<and> stem q = [] \<and> purpose q = Formative \<and> qid q = gen 0
       \<and> subItemCount (payload q) = (case ty of Mcq \<Rightarrow> 4 | Ordering \<Rightarrow> 3 | Hotspot \<Rightarrow> 0))"
  by (cases ty)
    (simp_all add: createEmptyQuestion_def baseQuestion_def qtype_def stubOption_def stubItem_def)

subsection \<open>The pre-save hook on multiple-choice documents\<close>

text \<open>
  Claim C2, as stated: a multiple-choice document is persisted iff exactly one of
  its options is marked correct.  The hook has a second check for such documents:
  the example question with the feedback of one option cleared has exactly one
  correct option, and still the hook aborts (with the feedback message), and the
  save fails (already at the field level, where the same rule is declared).
\<close>

theorem one_correct_option_not_persisted:
  "doc_type noFeedbackDoc = Mcq
   \<and> length (filter opt_isCorrect (doc_options noFeedbackDoc)) = 1
   \<and> preSave noFeedbackDoc = Some ''Formative MCQ questions must have feedback for all options''
   \<and> save noFeedbackDoc = Inl (ValidationFailed [RequiredError (AtElem ''options'' 1 ''feedback'')])"
  by (simp add: ex_defs schema_defs enumerate_eq_zip upt_rec)

text \<open>
  Claim C2, amended: on a multiple-choice document the pre-save hook aborts with
  the message \<open>MCQ questions must have exactly one correct option\<close> iff the number
  of options marked correct is not 1; it aborts with the message
  \<open>Formative MCQ questions must have feedback for all options\<close> iff that number is
  1, the question is formative and some option lacks feedback; and it lets the save
  proceed iff that number is 1 and, for a formative question, no option lacks
  feedback.  A save succeeds only if the number is 1; for a document that passes
  the field-level validation it succeeds iff the number is 1, and fails with the
  exactly-one message otherwise.
\<close>

theorem preSave_mcq_exactly_one:
  assumes "doc_type d = Mcq"
  shows "(preSave d = Some ''MCQ questions must have exactly one correct option'' \<longleftrightarrow>
            length (filter opt_isCorrect (doc_options d)) \<noteq> 1)
       \<and> (preSave d = Some ''Formative MCQ questions must have feedback for all options'' \<longleftrightarrow>
            length (filter opt_isCorrect (doc_options d)) = 1 \<and> doc_purpose d = Formative \<and>
            list_ex (\<lambda>opt. falsyOpt (opt_feedback opt)) (doc_options d))
       \<and> (preSave d = None \<longleftrightarrow>
            length (filter opt_isCorrect (doc_options d)) = 1 \<and>
            \<not> (doc_purpose d = Formative \<and>
               list_ex (\<lambda>opt. falsyOpt (opt_feedback opt)) (doc_options d)))
       \<and> ((\<exists>stored. save d = Inr stored) \<longrightarrow>
            length (filter opt_isCorrect (doc_options d)) = 1)
       \<and> (validateDocument (castDocument d) = [] \<longrightarrow>
            ((\<exists>stored. save d = Inr stored) \<longleftrightarrow>
               length (filter opt_isCorrect (doc_options d)) = 1))
       \<and> (validateDocument (castDocument d) = [] \<and>
            length (filter opt_isCorrect (doc_options d)) \<noteq> 1 \<longrightarrow>
            save d = Inl (HookError ''MCQ questions must have exactly one correct option''))"
proof -
  let ?n = "length (filter opt_isCorrect (doc_options d))"
  have 1: "preSave d = Some ''MCQ questions must have exactly one correct option'' \<longleftrightarrow> ?n \<noteq> 1"
    by (simp add: preSave_mcq [OF assms])
  have msg: "preSave d = Some ''Formative MCQ questions must have feedback for all options'' \<longleftrightarrow>
            ?n = 1 \<and> doc_purpose d = Formative \<and>
            list_ex (\<lambda>opt. falsyOpt (opt_feedback opt)) (doc_options d)"
    by (simp add: preSave_mcq [OF assms])
  have 2: "preSave d = None \<longleftrightarrow> ?n = 1 \<and>
            \<not> (doc_purpose d = Formative \<and>
               list_ex (\<lambda>opt. falsyOpt (opt_feedback opt)) (doc_options d))"
    by (simp add: preSave_mcq [OF assms])
  have cast: "doc_type (castDocument d) = Mcq" using assms by simp
  have hook: "preSave (castDocument d) =
     (if ?n \<noteq> 1 then Some ''MCQ questions must have exactly one correct option''
      else if doc_purpose d = Formative \<and>
              list_ex (\<lambda>opt. falsyOpt (opt_feedback opt)) (doc_options (castDocument d))
      then Some ''Formative MCQ questions must have feedback for all options''
      else None)"
    by (simp add: preSave_mcq [OF cast])
  have 3: "(\<exists>stored. save d = Inr stored) \<longrightarrow> ?n = 1"
    by (auto simp: save_Inr_iff hook split: if_splits)
  have fb: "validateDocument (castDocument d) = [] \<Longrightarrow>
            \<not> (doc_purpose d = Formative \<and>
               list_ex (\<lambda>opt. falsyOpt (opt_feedback opt)) (doc_options (castDocument d)))"
    using validateDocument_Nil_feedback [of "castDocument d"] by auto
  have 4: "validateDocument (castDocument d) = [] \<longrightarrow>
            ((\<exists>stored. save d = Inr stored) \<longleftrightarrow> ?n = 1)"
    using fb by (auto simp: save_Inr_iff hook)
  have 5: "validateDocument (castDocument d) = [] \<and> ?n \<noteq> 1 \<longrightarrow>
            save d = Inl (HookError ''MCQ questions must have exactly one correct option'')"
    by (simp add: save_def Let_def hook)
  from 1 msg 2 3 4 5 show ?thesis by blast
qed

theorem preSave_mcq_exactly_one_witness:
  "doc_type exampleDoc = Mcq
   \<and> length (filter opt_isCorrect (doc_options exampleDoc)) = 1
   \<and> (\<exists>stored. save exampleDoc = Inr stored)
   \<and> length (filter opt_isCorrect (doc_options twoCorrectDoc)) = 2
   \<and> preSave twoCorrectDoc = Some ''MCQ questions must have exactly one correct option''
   \<and> save twoCorrectDoc = Inl (HookError ''MCQ questions must have exactly one correct option'')"
proof -
  have ty: "doc_type exampleDoc = Mcq" "doc_type twoCorrectDoc = Mcq"
    by (simp_all add: ex_defs)
  have n1: "length (filter opt_isCorrect (doc_options exampleDoc)) = 1"
    by (simp add: ex_defs)
  have n2: "length (filter opt_isCorrect (doc_options twoCorrectDoc)) = 2"
    by (simp add: ex_defs)
  have v1: "validateDocument (castDocument exampleDoc) = []"
    by (simp add: ex_defs schema_defs enumerate_eq_zip upt_rec)
  have v2: "validateDocument (castDocument twoCorrectDoc) = []"
    by (simp add: ex_defs schema_defs enumerate_eq_zip upt_rec)
  show ?thesis
    using preSave_mcq_exactly_one [OF ty(1)] preSave_mcq_exactly_one [OF ty(2)] ty n1 n2 v1 v2
    by simp
qed

subsection \<open>The pre-save hook on ordering documents\<close>

text \<open>
  Claim C3, as stated: an ordering document is persisted iff its order numbers,
  sorted ascending, are exactly \<open>0, 1, \<dots>, n - 1\<close>.  The orders \<open>0, 2, 1\<close> of the
  claim's own example pass the pre-save hook; but the hook runs after the
  field-level validation, and the same document with a blank stem is not
  persisted.
\<close>

theorem sequential_orders_not_persisted:
  "doc_type ((orderingDoc [0, 2, 1])\<lparr>doc_stem := ''  ''\<rparr>) = Ordering
   \<and> sort (map item_order (doc_items ((orderingDoc [0, 2, 1])\<lparr>doc_stem := ''  ''\<rparr>))) = [0, 1, 2]
   \<and> preSave (castDocument ((orderingDoc [0, 2, 1])\<lparr>doc_stem := ''  ''\<rparr>)) = None
   \<and> save ((orderingDoc [0, 2, 1])\<lparr>doc_stem := ''  ''\<rparr>) =
       Inl (ValidationFailed [RequiredError (At ''stem'')])"
proof -
  let ?d = "(orderingDoc [0, 2, 1])\<lparr>doc_stem := ''  ''\<rparr>"
  have ty: "doc_type ?d = Ordering"
    by (simp add: ex_defs)
  have orders: "sort (map item_order (doc_items ?d)) = [0, 1, 2]"
    by (simp add: ex_defs)
  have "map int [0..<3] = [0, 1, 2]"
    by (simp add: upt_rec)
  then have hook: "preSave (castDocument ?d) = None"
    using ordersLoop_zero_iff [of "[0, 1, 2]"] orders
    by (simp add: preSave_ordering ty)
  have "save ?d = Inl (ValidationFailed [RequiredError (At ''stem'')])"
    by (simp add: ex_defs save_def castDocument_def castItem_def validateDocument_def
        itemErrors_def imageUrlValidator_def trim_def isWhiteSpace_def enumerate_eq_zip upt_rec)
  with ty orders hook show ?thesis by simp
qed

text \<open>
  Claim C3, amended: on an ordering document the pre-save hook lets the save
  proceed iff the order numbers of the items, sorted ascending, are exactly
  \<open>0, 1, \<dots>, n - 1\<close> for \<open>n\<close> items, that is iff the multiset of order numbers is
  that of \<open>0, \<dots>, n - 1\<close>; otherwise it aborts with the message about sequential
  order numbers.  An ordering document is persisted iff it passes the field-level
  validation and its sorted order numbers are \<open>0, 1, \<dots>, n - 1\<close>.
\<close>

theorem preSave_ordering_sequential:
  assumes "doc_type d = Ordering"
  shows "(preSave d = None \<longleftrightarrow>
            sort (map item_order (doc_items d)) = map int [0..<length (doc_items d)])
       \<and> (preSave d = None \<longleftrightarrow>
            mset (map item_order (doc_items d)) = mset (map int [0..<length (doc_items d)]))
       \<and> (preSave d \<noteq> None \<longleftrightarrow>
            preSave d = Some ''Ordering items must have sequential order numbers starting from 0'')
       \<and> (validateDocument (castDocument d) = [] \<longrightarrow>
            ((\<exists>stored. save d = Inr stored) \<longleftrightarrow>
               sort (map item_order (doc_items d)) = map int [0..<length (doc_items d)]))
       \<and> ((\<exists>stored. save d = Inr stored) \<longleftrightarrow>
            validateDocument (castDocument d) = [] \<and>
            sort (map item_order (doc_items d)) = map int [0..<length (doc_items d)])"
proof -
  let ?orders = "sort (map item_order (doc_items d))"
  have len: "length ?orders = length (doc_items d)" by simp
  have hook: "preSave d = ordersLoop ?orders 0"
    using assms by (rule preSave_ordering)
  have 1: "preSave d = None \<longleftrightarrow> ?orders = map int [0..<length (doc_items d)]"
    using ordersLoop_zero_iff [of ?orders] by (simp add: hook)
  have 2: "?orders = map int [0..<length (doc_items d)] \<longleftrightarrow>
           mset (map item_order (doc_items d)) = mset (map int [0..<length (doc_items d)])"
    using sort_eq_upt_iff_mset [of "map item_order (doc_items d)"] by simp
  have 3: "preSave d \<noteq> None \<longleftrightarrow>
            preSave d = Some ''Ordering items must have sequential order numbers starting from 0''"
    using ordersLoop_result [of ?orders 0] by (auto simp: hook)
  have cast: "preSave (castDocument d) = ordersLoop ?orders 0"
    using assms by (simp add: preSave_ordering)
  then have 4: "validateDocument (castDocument d) = [] \<longrightarrow>
            ((\<exists>stored. save d = Inr stored) \<longleftrightarrow> ?orders = map int [0..<length (doc_items d)])"
    using 1 by (simp add: save_Inr_iff hook)
  have 5: "(\<exists>stored. save d = Inr stored) \<longleftrightarrow>
            validateDocument (castDocument d) = [] \<and>
            ?orders = map int [0..<length (doc_items d)]"
    using 1 cast by (simp add: save_Inr_iff hook)
  from 1 2 3 4 5 show ?thesis by blast
qed

theorem preSave_ordering_sequential_witness:
  "doc_type (orderingDoc [0, 2, 1]) = Ordering
   \<and> preSave (orderingDoc [0, 2, 1]) = None
   \<and> (\<exists>stored. save (orderingDoc [0, 2, 1]) = Inr stored)
   \<and> preSave (orderingDoc [1, 2, 3]) =
       Some ''Ordering items must have sequential order numbers starting from 0''
   \<and> preSave (orderingDoc [0, 0, 1]) =
       Some ''Ordering items must have sequential order numbers starting from 0''"
proof -
  have ty: "doc_type (orderingDoc os) = Ordering" for os
    by (simp add: ex_defs)
  have items: "map item_order (doc_items (orderingDoc os)) = os" for os
    by (simp add: ex_defs comp_def)
  have len: "length (doc_items (orderingDoc os)) = length os" for os
    by (simp add: ex_defs)
  have upt3: "map int [0..<3] = [0, 1, 2]"
    by (simp add: upt_rec)
  have v: "validateDocument (castDocument (orderingDoc [0, 2, 1])) = []"
    by (simp add: ex_defs schema_defs enumerate_eq_zip upt_rec)
  show ?thesis
    using preSave_ordering_sequential [OF ty, of "[0, 2, 1]"]
      preSave_ordering_sequential [OF ty, of "[1, 2, 3]"]
      preSave_ordering_sequential [OF ty, of "[0, 0, 1]"] v
    by (auto simp: ty items len upt3)
qed

subsection \<open>The imageUrl rule\<close>

text \<open>
  Claim C8: the imageUrl rule of the schema accepts the stored value iff it is
  absent, or empty, or matches \<open>^https?://.+\<close>, that is iff it begins with
  \<open>http://\<close> or \<open>https://\<close> followed by at least one character that is not a line
  terminator.  So an absent or empty value is always valid, and every other value
  that does not match is rejected with the URL-format error, which makes the save
  fail.  The rule is declared for documents of every type, hotspot documents among
  them.
\<close>

theorem imageUrl_rule:
  "(imageUrlValidator (doc_imageUrl d) \<longleftrightarrow>
      doc_imageUrl d = None \<or> doc_imageUrl d = Some [] \<or>
      (\<exists>u c rest. doc_imageUrl d = Some u \<and> \<not> isLineTerminator c \<and>
          (u = ''http://'' @ c # rest \<or> u = ''https://'' @ c # rest)))
   \<and> (RuleError (At ''imageUrl'') ''Image URL must be a valid HTTP/HTTPS URL''
          \<in> set (validateDocument d) \<longleftrightarrow> \<not> imageUrlValidator (doc_imageUrl d))
   \<and> (\<not> imageUrlValidator (doc_imageUrl (castDocument d)) \<longrightarrow>
        (\<exists>errs. save d = Inl (ValidationFailed errs) \<and>
           RuleError (At ''imageUrl'') ''Image URL must be a valid HTTP/HTTPS URL'' \<in> set errs))"
proof -
  have 1: "imageUrlValidator (doc_imageUrl d) \<longleftrightarrow>
      doc_imageUrl d = None \<or> doc_imageUrl d = Some [] \<or>
      (\<exists>u c rest. doc_imageUrl d = Some u \<and> \<not> isLineTerminator c \<and>
          (u = ''http://'' @ c # rest \<or> u = ''https://'' @ c # rest))"
    by (cases "doc_imageUrl d") (auto simp: imageUrlValidator_def matchSeq_urlPattern)
  have 3: "\<not> imageUrlValidator (doc_imageUrl (castDocument d)) \<longrightarrow>
        (\<exists>errs. save d = Inl (ValidationFailed errs) \<and>
           RuleError (At ''imageUrl'') ''Image URL must be a valid HTTP/HTTPS URL'' \<in> set errs)"
  proof
    assume "\<not> imageUrlValidator (doc_imageUrl (castDocument d))"
    then have mem: "RuleError (At ''imageUrl'') ''Image URL must be a valid HTTP/HTTPS URL''
        \<in> set (validateDocument (castDocument d))"
      by (simp add: imageUrl_error_iff)
    then have "validateDocument (castDocument d) \<noteq> []" by auto
    then have "save d = Inl (ValidationFailed (validateDocument (castDocument d)))"
      by (simp add: save_def Let_def)
    with mem show "\<exists>errs. save d = Inl (ValidationFailed errs) \<and>
           RuleError (At ''imageUrl'') ''Image URL must be a valid HTTP/HTTPS URL'' \<in> set errs"
      by blast
  qed
  from 1 imageUrl_error_iff [of d] 3 show ?thesis by blast
qed

theorem imageUrl_rule_witness:
  "imageUrlValidator (doc_imageUrl (hotspotDoc None))
   \<and> imageUrlValidator (doc_imageUrl (hotspotDoc (Some [])))
   \<and> imageUrlValidator (doc_imageUrl (hotspotDoc (Some ''https://example.com/map.png'')))
   \<and> (\<exists>stored. save (hotspotDoc (Some ''http://example.com/map.png'')) = Inr stored)
   \<and> \<not> imageUrlValidator (doc_imageUrl (castDocument (hotspotDoc (Some ''ftp://example.com/map.png''))))
   \<and> save (hotspotDoc (Some ''ftp://example.com/map.png'')) =
       Inl (ValidationFailed
             [RuleError (At ''imageUrl'') ''Image URL must be a valid HTTP/HTTPS URL''])"
  using imageUrl_rule [of "hotspotDoc (Some ''ftp://example.com/map.png'')"]
  by (simp add: hotspotDoc_def exampleZone_def ex_defs schema_defs urlPattern_def
      isLineTerminator_def enumerate_eq_zip upt_rec)

subsection \<open>Conditionally required fields\<close>

text \<open>
  Claim C4: a summative question whose learning objective is empty (absent or
  blank) fails the client-side validator with the objective message and the
  schema-side validator with the required-error of \<open>learningObjective\<close>; a formative
  multiple-choice question in which some option lacks feedback fails the
  client-side validator with the feedback message and the schema-side validator with
  the required-error of that option's \<open>feedback\<close> (and the pre-save hook would abort
  as well); and on a summative multiple-choice question neither validator asks for
  feedback: no feedback error is ever reported, and the verdict of either validator
  stays the same whatever the feedback of the options is changed to.
\<close>

theorem conditional_required_fields:
  "(purpose q = Summative \<and> blankOpt (learningObjective q) \<longrightarrow>
      ''Learning objective is required for summative questions'' \<in> set (errors (validateQuestion q))
      \<and> \<not> isValid (validateQuestion q))
   \<and> (doc_purpose d = Summative \<and> blankOpt (doc_learningObjective d) \<longrightarrow>
      (\<exists>errs. save d = Inl (ValidationFailed errs)
             \<and> RequiredError (At ''learningObjective'') \<in> set errs))
   \<and> (purpose q = Formative \<and> payload q = MCQ opts
        \<and> list_ex (\<lambda>opt. blankOpt (opt_feedback opt)) opts \<longrightarrow>
      ''All options must have feedback for formative questions'' \<in> set (errors (validateQuestion q))
      \<and> \<not> isValid (validateQuestion q))
   \<and> (doc_type d = Mcq \<and> doc_purpose d = Formative \<and> i < length (doc_options d)
        \<and> blankOpt (opt_feedback (doc_options d ! i)) \<longrightarrow>
      (\<exists>errs. save d = Inl (ValidationFailed errs)
             \<and> RequiredError (AtElem ''options'' i ''feedback'') \<in> set errs)
      \<and> preSave (castDocument d) \<noteq> None)
   \<and> (purpose q = Summative \<and> payload q = MCQ opts \<longrightarrow>
      ''All options must have feedback for formative questions'' \<notin> set (errors (validateQuestion q))
      \<and> validateQuestion (q\<lparr>payload := MCQ (map (\<lambda>opt. opt\<lparr>opt_feedback := f opt\<rparr>) opts)\<rparr>)
          = validateQuestion q)
   \<and> (doc_type d = Mcq \<and> doc_purpose d = Summative \<longrightarrow>
      RequiredError (AtElem ''options'' i ''feedback'') \<notin> set (validateDocument (castDocument d))
      \<and> preSave (castDocument d) \<noteq> Some ''Formative MCQ questions must have feedback for all options''
      \<and> validateDocument (castDocument
            (d\<lparr>doc_options := map (\<lambda>opt. opt\<lparr>opt_feedback := f opt\<rparr>) (doc_options d)\<rparr>))
          = validateDocument (castDocument d)
      \<and> preSave (castDocument
            (d\<lparr>doc_options := map (\<lambda>opt. opt\<lparr>opt_feedback := f opt\<rparr>) (doc_options d)\<rparr>))
          = preSave (castDocument d))"
proof -
  have 1: "purpose q = Summative \<and> blankOpt (learningObjective q) \<longrightarrow>
      ''Learning objective is required for summative questions'' \<in> set (errors (validateQuestion q))
      \<and> \<not> isValid (validateQuestion q)"
    by (simp add: objective_error_iff isValid_iff)
  have 2: "doc_purpose d = Summative \<and> blankOpt (doc_learningObjective d) \<longrightarrow>
      (\<exists>errs. save d = Inl (ValidationFailed errs)
             \<and> RequiredError (At ''learningObjective'') \<in> set errs)"
  proof
    assume "doc_purpose d = Summative \<and> blankOpt (doc_learningObjective d)"
    then have mem: "RequiredError (At ''learningObjective'') \<in> set (validateDocument (castDocument d))"
      by (simp add: validateDocument_objective_iff castDocument_objective)
    from save_ValidationFailed [OF mem] mem
    show "\<exists>errs. save d = Inl (ValidationFailed errs)
             \<and> RequiredError (At ''learningObjective'') \<in> set errs"
      by blast
  qed
  have 3: "purpose q = Formative \<and> payload q = MCQ opts
        \<and> list_ex (\<lambda>opt. blankOpt (opt_feedback opt)) opts \<longrightarrow>
      ''All options must have feedback for formative questions'' \<in> set (errors (validateQuestion q))
      \<and> \<not> isValid (validateQuestion q)"
    by (simp add: feedback_error_iff isValid_iff)
  have 4: "doc_type d = Mcq \<and> doc_purpose d = Formative \<and> i < length (doc_options d)
        \<and> blankOpt (opt_feedback (doc_options d ! i)) \<longrightarrow>
      (\<exists>errs. save d = Inl (ValidationFailed errs)
             \<and> RequiredError (AtElem ''options'' i ''feedback'') \<in> set errs)
      \<and> preSave (castDocument d) \<noteq> None"
  proof
    assume a: "doc_type d = Mcq \<and> doc_purpose d = Formative \<and> i < length (doc_options d)
        \<and> blankOpt (opt_feedback (doc_options d ! i))"
    then have mem: "RequiredError (AtElem ''options'' i ''feedback'')
        \<in> set (validateDocument (castDocument d))"
      by (simp add: validateDocument_feedback_iff castDocument_option_feedback)
    from a have "doc_options d ! i \<in> set (doc_options d)" by simp
    with a have "list_ex (\<lambda>opt. blankOpt (opt_feedback opt)) (doc_options d)"
      unfolding list_ex_iff by blast
    then have "list_ex (\<lambda>opt. falsyOpt (opt_feedback opt)) (doc_options (castDocument d))"
      by (simp only: castDocument_missing_feedback)
    moreover have "doc_type (castDocument d) = Mcq" "doc_purpose (castDocument d) = Formative"
      using a by simp_all
    ultimately have "preSave (castDocument d) \<noteq> None"
      by (simp add: preSave_mcq)
    with save_ValidationFailed [OF mem] mem
    show "(\<exists>errs. save d = Inl (ValidationFailed errs)
             \<and> RequiredError (AtElem ''options'' i ''feedback'') \<in> set errs)
      \<and> preSave (castDocument d) \<noteq> None"
      by blast
  qed
  have 5: "purpose q = Summative \<and> payload q = MCQ opts \<longrightarrow>
      ''All options must have feedback for formative questions'' \<notin> set (errors (validateQuestion q))
      \<and> validateQuestion (q\<lparr>payload := MCQ (map (\<lambda>opt. opt\<lparr>opt_feedback := f opt\<rparr>) opts)\<rparr>)
          = validateQuestion q"
    by (simp add: feedback_error_iff validateQuestion_summative_feedback)
  have 6: "doc_type d = Mcq \<and> doc_purpose d = Summative \<longrightarrow>
      RequiredError (AtElem ''options'' i ''feedback'') \<notin> set (validateDocument (castDocument d))
      \<and> preSave (castDocument d) \<noteq> Some ''Formative MCQ questions must have feedback for all options''
      \<and> validateDocument (castDocument
            (d\<lparr>doc_options := map (\<lambda>opt. opt\<lparr>opt_feedback := f opt\<rparr>) (doc_options d)\<rparr>))
          = validateDocument (castDocument d)
      \<and> preSave (castDocument
            (d\<lparr>doc_options := map (\<lambda>opt. opt\<lparr>opt_feedback := f opt\<rparr>) (doc_options d)\<rparr>))
          = preSave (castDocument d)"
  proof
    assume a: "doc_type d = Mcq \<and> doc_purpose d = Summative"
    then have ty: "doc_type (castDocument d) = Mcq" and pu: "doc_purpose (castDocument d) = Summative"
      by simp_all
    have "RequiredError (AtElem ''options'' i ''feedback'') \<notin> set (validateDocument (castDocument d))"
      using a by (simp add: validateDocument_feedback_iff)
    moreover have "preSave (castDocument d) \<noteq> Some ''Formative MCQ questions must have feedback for all options''"
      using a by (simp add: preSave_mcq [OF ty])
    ultimately show "RequiredError (AtElem ''options'' i ''feedback'') \<notin> set (validateDocument (castDocument d))
      \<and> preSave (castDocument d) \<noteq> Some ''Formative MCQ questions must have feedback for all options''
      \<and> validateDocument (castDocument
            (d\<lparr>doc_options := map (\<lambda>opt. opt\<lparr>opt_feedback := f opt\<rparr>) (doc_options d)\<rparr>))
          = validateDocument (castDocument d)
      \<and> preSave (castDocument
            (d\<lparr>doc_options := map (\<lambda>opt. opt\<lparr>opt_feedback := f opt\<rparr>) (doc_options d)\<rparr>))
          = preSave (castDocument d)"
      using a validateDocument_summative_feedback [of d f] preSave_summative_feedback [of d f]
      by simp
  qed
  from 1 2 3 4 5 6 show ?thesis by blast
qed

theorem conditional_required_fields_witness:
  "purpose summativeQuestion = Summative \<and> blankOpt (learningObjective summativeQuestion)
   \<and> ''Learning objective is required for summative questions''
        \<in> set (errors (validateQuestion summativeQuestion))
   \<and> doc_purpose summativeDoc = Summative \<and> blankOpt (doc_learningObjective summativeDoc)
   \<and> save summativeDoc = Inl (ValidationFailed [RequiredError (At ''learningObjective'')])
   \<and> purpose noFeedbackQuestion = Formative
   \<and> ''All options must have feedback for formative questions''
        \<in> set (errors (validateQuestion noFeedbackQuestion))
   \<and> doc_type noFeedbackDoc = Mcq \<and> doc_purpose noFeedbackDoc = Formative
   \<and> blankOpt (opt_feedback (doc_options noFeedbackDoc ! 1))
   \<and> save noFeedbackDoc = Inl (ValidationFailed [RequiredError (AtElem ''options'' 1 ''feedback'')])
   \<and> ''All options must have feedback for formative questions''
        \<notin> set (errors (validateQuestion (noFeedbackQuestion\<lparr>purpose := Summative\<rparr>)))
   \<and> preSave (castDocument (noFeedbackDoc\<lparr>doc_purpose := Summative\<rparr>)) = None"
proof -
  have q1: "purpose summativeQuestion = Summative \<and> blankOpt (learningObjective summativeQuestion)"
    by (simp add: summativeQuestion_def exampleQuestion_def trim_def isWhiteSpace_def)
  have d1: "doc_purpose summativeDoc = Summative \<and> blankOpt (doc_learningObjective summativeDoc)"
    by (simp add: summativeDoc_def ex_defs trim_def isWhiteSpace_def)
  have s1: "save summativeDoc = Inl (ValidationFailed [RequiredError (At ''learningObjective'')])"
    by (simp add: summativeDoc_def ex_defs schema_defs enumerate_eq_zip upt_rec)
  have q3: "purpose noFeedbackQuestion = Formative
      \<and> payload noFeedbackQuestion = MCQ (exampleOptions[1 := (exampleOptions ! 1)\<lparr>opt_feedback := None\<rparr>])
      \<and> list_ex (\<lambda>opt. blankOpt (opt_feedback opt))
           (exampleOptions[1 := (exampleOptions ! 1)\<lparr>opt_feedback := None\<rparr>])"
    by (simp add: noFeedbackQuestion_def exampleQuestion_def exampleOptions_def)
  have d4: "doc_type noFeedbackDoc = Mcq \<and> doc_purpose noFeedbackDoc = Formative
      \<and> 1 < length (doc_options noFeedbackDoc)
      \<and> blankOpt (opt_feedback (doc_options noFeedbackDoc ! 1))"
    by (simp add: ex_defs)
  have s4: "save noFeedbackDoc = Inl (ValidationFailed [RequiredError (AtElem ''options'' 1 ''feedback'')])"
    by (simp add: ex_defs schema_defs enumerate_eq_zip upt_rec)
  have q5: "purpose (noFeedbackQuestion\<lparr>purpose := Summative\<rparr>) = Summative
      \<and> payload (noFeedbackQuestion\<lparr>purpose := Summative\<rparr>)
          = MCQ (exampleOptions[1 := (exampleOptions ! 1)\<lparr>opt_feedback := None\<rparr>])"
    by (simp add: noFeedbackQuestion_def exampleQuestion_def)
  have h6: "preSave (castDocument (noFeedbackDoc\<lparr>doc_purpose := Summative\<rparr>)) = None"
    by (simp add: ex_defs schema_defs)
  show ?thesis
    using conditional_required_fields [where q = summativeQuestion and d = summativeDoc]
      conditional_required_fields [where q = noFeedbackQuestion and d = noFeedbackDoc and i = 1
        and opts = "exampleOptions[1 := (exampleOptions ! 1)\<lparr>opt_feedback := None\<rparr>]"]
      conditional_required_fields [where q = "noFeedbackQuestion\<lparr>purpose := Summative\<rparr>"
        and opts = "exampleOptions[1 := (exampleOptions ! 1)\<lparr>opt_feedback := None\<rparr>]"]
      q1 d1 s1 q3 d4 s4 q5 h6
    by simp
qed

subsection \<open>Hotspot questions need a zone, and a zone needs three points\<close>

lemma finishZone_short:
  "length (he_currentZone ed) < 3 \<Longrightarrow> he_question (finishZone newId ed) = he_question ed"
  by (simp add: finishZone_def Let_def)

lemma zonesOf_withZones: "zonesOf (withZones question zs) = zs"
  by (cases "payload question") (simp_all add: zonesOf_def withZones_def)

lemma finishZone_zones:
  "zonesOf (he_question (finishZone newId ed)) =
     (if length (he_currentZone ed) \<ge> 3
      then zonesOf (he_question ed) @
           [\<lparr>zone_id = newId, zone_coordinates = he_currentZone ed,
             zone_label = Some (''Zone '' @ showNat (length (zonesOf (he_question ed)) + 1))\<rparr>]
      else zonesOf (he_question ed))"
  by (simp add: finishZone_def Let_def zonesOf_withZones)

lemma hotspot_client_and_editor:
  "(payload q = HOTSPOT [] url img \<longrightarrow>
      ''At least one hotspot zone is required'' \<in> set (errors (validateQuestion q))
      \<and> \<not> isValid (validateQuestion q))
   \<and> (length (he_currentZone ed) < 3 \<longrightarrow>
        he_question (finishZone newId ed) = he_question ed)
   \<and> (zonesOf (he_question (finishZone newId ed)) = zonesOf (he_question ed)
        \<or> (\<exists>zone. zonesOf (he_question (finishZone newId ed)) = zonesOf (he_question ed) @ [zone]
              \<and> zone_coordinates zone = he_currentZone ed
              \<and> length (zone_coordinates zone) \<ge> 3))
   \<and> (list_all (\<lambda>zone. length (zone_coordinates zone) \<ge> 3) (zonesOf (he_question ed)) \<longrightarrow>
        list_all (\<lambda>zone. length (zone_coordinates zone) \<ge> 3)
          (zonesOf (he_question (finishZone newId ed))))
   \<and> he_currentZone (finishZone newId ed) = [] \<and> \<not> he_isDrawing (finishZone newId ed)"
proof -
  have 1: "payload q = HOTSPOT [] url img \<longrightarrow>
      ''At least one hotspot zone is required'' \<in> set (errors (validateQuestion q))
      \<and> \<not> isValid (validateQuestion q)"
    by (simp add: zone_error_iff isValid_iff)
  have 3: "length (he_currentZone ed) < 3 \<longrightarrow>
        he_question (finishZone newId ed) = he_question ed"
    by (simp add: finishZone_short)
  have 4: "zonesOf (he_question (finishZone newId ed)) = zonesOf (he_question ed)
        \<or> (\<exists>zone. zonesOf (he_question (finishZone newId ed)) = zonesOf (he_question ed) @ [zone]
              \<and> zone_coordinates zone = he_currentZone ed
              \<and> length (zone_coordinates zone) \<ge> 3)"
    by (simp add: finishZone_zones)
  have 5: "list_all (\<lambda>zone. length (zone_coordinates zone) \<ge> 3) (zonesOf (he_question ed)) \<longrightarrow>
        list_all (\<lambda>zone. length (zone_coordinates zone) \<ge> 3)
          (zonesOf (he_question (finishZone newId ed)))"
    by (simp add: finishZone_zones)
  have 6: "he_currentZone (finishZone newId ed) = [] \<and> \<not> he_isDrawing (finishZone newId ed)"
    by (simp add: finishZone_def Let_def)
  from 1 3 4 5 6 show ?thesis by blast
qed

lemma finishZone_examples:
  "zonesOf (he_question (finishZone ''z2'' twoPointEditor)) = [exampleZone]
   \<and> zonesOf (he_question (finishZone ''z2'' threePointEditor)) =
       [exampleZone,
        \<lparr>zone_id = ''z2'', zone_coordinates = [(10, 10), (50, 10), (30, 40)],
         zone_label = Some ''Zone 2''\<rparr>]"
proof -
  have e: "zonesOf (he_question twoPointEditor) = [exampleZone]"
    "zonesOf (he_question threePointEditor) = [exampleZone]"
    by (simp_all add: twoPointEditor_def threePointEditor_def zonesOf_def)
  have f: "he_currentZone twoPointEditor = [(10, 10), (50, 10)]"
    "he_currentZone threePointEditor = [(10, 10), (50, 10), (30, 40)]"
    by (simp_all add: twoPointEditor_def threePointEditor_def)
  have g: "showNat (Suc (Suc 0)) = ''2''"
    by code_simp
  show ?thesis
    by (simp add: finishZone_zones e f g)
qed

text \<open>
  Claim C5: a hotspot question with no zone fails both validators, and
  \<open>finishZone\<close> adds no zone with fewer than three points.  The client-side
  validator and \<open>finishZone\<close> do as the claim says (the two lemmas above).  The
  schema does not: it writes the rule \<open>Hotspot questions must have at least 1 zone\<close>,
  and the rule is false of the hotspot question without zones, but it is declared
  where no validation runs it, and the pre-save hook has no check for hotspot
  questions.  So the question that the client-side validator rejects for its
  missing zone passes the field-level validation and is saved.
\<close>

theorem zero_zone_hotspot_is_saved:
  "qtype noZoneQuestion = Hotspot
   \<and> zonesOf noZoneQuestion = []
   \<and> ''At least one hotspot zone is required'' \<in> set (errors (validateQuestion noZoneQuestion))
   \<and> \<not> isValid (validateQuestion noZoneQuestion)
   \<and> doc_type zeroZoneDoc = Hotspot
   \<and> doc_zones zeroZoneDoc = []
   \<and> \<not> zonesValidator zeroZoneDoc (doc_zones zeroZoneDoc)
   \<and> validateDocument (castDocument zeroZoneDoc) = []
   \<and> preSave (castDocument zeroZoneDoc) = None
   \<and> save zeroZoneDoc = Inr (castDocument zeroZoneDoc)"
proof -
  have q: "qtype noZoneQuestion = Hotspot \<and> zonesOf noZoneQuestion = []"
    by (simp add: noZoneQuestion_def qtype_def zonesOf_def)
  have c: "''At least one hotspot zone is required'' \<in> set (errors (validateQuestion noZoneQuestion))
      \<and> \<not> isValid (validateQuestion noZoneQuestion)"
    by (simp add: zone_error_iff isValid_iff noZoneQuestion_def)
  have d: "doc_type zeroZoneDoc = Hotspot \<and> doc_zones zeroZoneDoc = []"
    by (simp add: zeroZoneDoc_def toDocument_def noZoneQuestion_def qtype_def)
  then have z: "\<not> zonesValidator zeroZoneDoc (doc_zones zeroZoneDoc)"
    by (simp add: zonesValidator_def)
  have v: "validateDocument (castDocument zeroZoneDoc) = []"
    by (simp add: zeroZoneDoc_def toDocument_def noZoneQuestion_def exampleQuestion_def qtype_def
        castDocument_def validateDocument_def imageUrlValidator_def trim_def isWhiteSpace_def)
  have h: "preSave (castDocument zeroZoneDoc) = None"
    using d by (simp add: preSave_hotspot)
  from v h have "save zeroZoneDoc = Inr (castDocument zeroZoneDoc)"
    by (simp add: save_def)
  with q c d z v h show ?thesis by simp
qed

text \<open>
  The two other count rules are declared in the same place and never run either:
  an ordering document with a single item, of which the items rule is false, is
  saved.
\<close>

lemma one_item_ordering_is_saved:
  "\<not> itemsValidator (orderingDoc [0]) (doc_items (orderingDoc [0]))
   \<and> save (orderingDoc [0]) = Inr (castDocument (orderingDoc [0]))"
proof -
  have ty: "doc_type (castDocument (orderingDoc [0])) = Ordering"
    by (simp add: ex_defs)
  have "\<not> itemsValidator (orderingDoc [0]) (doc_items (orderingDoc [0]))"
    by (simp add: itemsValidator_def ex_defs)
  moreover have "validateDocument (castDocument (orderingDoc [0])) = []"
    by (simp add: ex_defs castDocument_def castItem_def castOption_def validateDocument_def
        itemErrors_def imageUrlValidator_def trim_def isWhiteSpace_def enumerate_eq_zip upt_rec)
  moreover have "preSave (castDocument (orderingDoc [0])) = None"
  proof -
    have orders: "sort (map item_order (doc_items (castDocument (orderingDoc [0])))) = [0]"
      by (simp add: ex_defs)
    have "ordersLoop [0] 0 = None"
      using ordersLoop_zero_iff [of "[0]"] by (simp add: upt_rec)
    then show ?thesis
      by (simp only: preSave_ordering [OF ty] orders)
  qed
  ultimately show ?thesis
    by (simp add: save_def)
qed

subsection \<open>The two validators compared\<close>

lemma validateDocument_Nil_iff:
  "validateDocument doc = [] \<longleftrightarrow>
     doc_stem doc \<noteq> [] \<and>
     \<not> (doc_purpose doc = Summative \<and> falsyOpt (doc_learningObjective doc)) \<and>
     \<not> (doc_purpose doc = Summative \<and> doc_bloomsLevel doc = None) \<and>
     doc_createdBy doc \<noteq> None \<and>
     list_all (\<lambda>opt. opt_text opt \<noteq> [] \<and>
        \<not> (doc_purpose doc = Formative \<and> falsyOpt (opt_feedback opt))) (doc_options doc) \<and>
     list_all (\<lambda>item. item_text item \<noteq> []) (doc_items doc) \<and>
     imageUrlValidator (doc_imageUrl doc)"
proof -
  have "validateDocument doc = [] \<longleftrightarrow>
     doc_stem doc \<noteq> [] \<and>
     \<not> (doc_purpose doc = Summative \<and> falsyOpt (doc_learningObjective doc)) \<and>
     \<not> (doc_purpose doc = Summative \<and> doc_bloomsLevel doc = None) \<and>
     doc_createdBy doc \<noteq> None \<and>
     concat (map (optionErrors (doc_purpose doc)) (enumerate 0 (doc_options doc))) = [] \<and>
     concat (map itemErrors (enumerate 0 (doc_items doc))) = [] \<and>
     imageUrlValidator (doc_imageUrl doc)"
    unfolding validateDocument_def append_is_Nil_conv by auto
  then show ?thesis
    by (simp only: optionErrors_concat_Nil itemErrors_concat_Nil)
qed

lemma castOption_all_iff:
  "list_all (\<lambda>opt. opt_text opt \<noteq> [] \<and> \<not> (p = Formative \<and> falsyOpt (opt_feedback opt)))
      (map castOption opts) \<longleftrightarrow>
   \<not> list_ex (\<lambda>opt. trim (opt_text opt) = []) opts \<and>
   (p = Formative \<longrightarrow> \<not> list_ex (\<lambda>opt. blankOpt (opt_feedback opt)) opts)"
  by (auto simp: list_all_iff list_ex_iff castOption_def blankOpt_iff_falsy_trim)

lemma castOption_all_iff_imp:
  "list_all (\<lambda>opt. opt_text opt \<noteq> [] \<and> (p = Formative \<longrightarrow> \<not> falsyOpt (opt_feedback opt)))
      (map castOption opts) \<longleftrightarrow>
   \<not> list_ex (\<lambda>opt. trim (opt_text opt) = []) opts \<and>
   (p = Formative \<longrightarrow> \<not> list_ex (\<lambda>opt. blankOpt (opt_feedback opt)) opts)"
  by (auto simp: list_all_iff list_ex_iff castOption_def blankOpt_iff_falsy_trim)

lemma castItem_all_iff:
  "list_all (\<lambda>item. item_text item \<noteq> []) (map castItem its) \<longleftrightarrow>
   \<not> list_ex (\<lambda>item. trim (item_text item) = []) its"
  by (auto simp: list_all_iff list_ex_iff castItem_def)

lemma one_correct_some_correct:
  "length (filter opt_isCorrect opts) = 1 \<Longrightarrow> list_ex opt_isCorrect opts"
proof -
  assume "length (filter opt_isCorrect opts) = 1"
  then have "filter opt_isCorrect opts \<noteq> []" by auto
  then show ?thesis by (auto simp: filter_empty_conv list_ex_iff)
qed

lemma isCorrect_castOption: "opt_isCorrect \<circ> castOption = opt_isCorrect"
  by (simp add: fun_eq_iff castOption_def)

text \<open>What the schema asks of a question of the editor, sent with an author reference.\<close>

lemma save_toDocument_iff:
  "(\<exists>stored. save (toDocument author tags q) = Inr stored) \<longleftrightarrow>
     trim (stem q) \<noteq> [] \<and>
     \<not> (purpose q = Summative \<and> blankOpt (learningObjective q)) \<and>
     \<not> (purpose q = Summative \<and> bloomsLevel q = None) \<and>
     author \<noteq> None \<and>
     (case payload q of
        MCQ opts \<Rightarrow>
          \<not> list_ex (\<lambda>opt. trim (opt_text opt) = []) opts \<and>
          (purpose q = Formative \<longrightarrow> \<not> list_ex (\<lambda>opt. blankOpt (opt_feedback opt)) opts) \<and>
          length (filter opt_isCorrect opts) = 1
      | ORDERING its \<Rightarrow>
          \<not> list_ex (\<lambda>item. trim (item_text item) = []) its \<and>
          sort (map item_order its) = map int [0..<length its]
      | HOTSPOT zs url img \<Rightarrow> imageUrlValidator (map_option trim url))"
proof (cases "payload q")
  case (MCQ opts)
  let ?d = "castDocument (toDocument author tags q)"
  have ty: "doc_type ?d = Mcq" and pu: "doc_purpose ?d = purpose q"
    and os: "doc_options ?d = map castOption opts"
    using MCQ by (simp_all add: toDocument_def qtype_def castDocument_def)
  have pu': "doc_purpose (toDocument author tags q) = purpose q"
    by (simp add: toDocument_def)
  have v: "validateDocument ?d = [] \<longleftrightarrow>
      trim (stem q) \<noteq> [] \<and>
      \<not> (purpose q = Summative \<and> blankOpt (learningObjective q)) \<and>
      \<not> (purpose q = Summative \<and> bloomsLevel q = None) \<and>
      author \<noteq> None \<and>
      \<not> list_ex (\<lambda>opt. trim (opt_text opt) = []) opts \<and>
      (purpose q = Formative \<longrightarrow> \<not> list_ex (\<lambda>opt. blankOpt (opt_feedback opt)) opts)"
    using MCQ
    by (simp add: validateDocument_Nil_iff toDocument_def qtype_def castDocument_def
        blankOpt_iff_falsy_trim castOption_all_iff castOption_all_iff_imp imageUrlValidator_def)
  have h: "validateDocument ?d = [] \<Longrightarrow>
      (preSave ?d = None \<longleftrightarrow> length (filter opt_isCorrect opts) = 1)"
  proof -
    assume a: "validateDocument ?d = []"
    from validateDocument_Nil_options [OF a]
    have "\<not> (purpose q = Formative \<and> list_ex (\<lambda>opt. falsyOpt (opt_feedback opt)) (map castOption opts))"
      by (auto simp: pu' os list_all_iff list_ex_iff)
    then show ?thesis
      by (auto simp: preSave_mcq [OF ty] pu' os isCorrect_castOption)
  qed
  have "(\<exists>stored. save (toDocument author tags q) = Inr stored) \<longleftrightarrow>
      validateDocument ?d = [] \<and> length (filter opt_isCorrect opts) = 1"
    using h by (auto simp: save_Inr_iff)
  then show ?thesis
    using MCQ by (auto simp: v)
next
  case (ORDERING its)
  let ?d = "castDocument (toDocument author tags q)"
  have ty: "doc_type ?d = Ordering"
    and its: "doc_items ?d = map castItem its"
    using ORDERING by (simp_all add: toDocument_def qtype_def castDocument_def)
  have v: "validateDocument ?d = [] \<longleftrightarrow>
      trim (stem q) \<noteq> [] \<and>
      \<not> (purpose q = Summative \<and> blankOpt (learningObjective q)) \<and>
      \<not> (purpose q = Summative \<and> bloomsLevel q = None) \<and>
      author \<noteq> None \<and>
      \<not> list_ex (\<lambda>item. trim (item_text item) = []) its"
    using ORDERING
    by (simp add: validateDocument_Nil_iff toDocument_def qtype_def castDocument_def
        blankOpt_iff_falsy_trim castItem_all_iff imageUrlValidator_def)
  have "item_order \<circ> castItem = item_order"
    by (simp add: fun_eq_iff castItem_def)
  then have h: "preSave ?d = None \<longleftrightarrow> sort (map item_order its) = map int [0..<length its]"
    using ordersLoop_zero_iff [of "sort (map item_order its)"]
    by (simp add: preSave_ordering [OF ty] its)
  show ?thesis
    using ORDERING by (auto simp: save_Inr_iff v h)
next
  case (HOTSPOT zs url img)
  let ?d = "castDocument (toDocument author tags q)"
  have ty: "doc_type ?d = Hotspot"
    using HOTSPOT by (simp add: toDocument_def qtype_def)
  have v: "validateDocument ?d = [] \<longleftrightarrow>
      trim (stem q) \<noteq> [] \<and>
      \<not> (purpose q = Summative \<and> blankOpt (learningObjective q)) \<and>
      \<not> (purpose q = Summative \<and> bloomsLevel q = None) \<and>
      author \<noteq> None \<and> imageUrlValidator (map_option trim url)"
    using HOTSPOT
    by (auto simp: validateDocument_Nil_iff toDocument_def qtype_def castDocument_def
        blankOpt_iff_falsy_trim)
  show ?thesis
    using HOTSPOT by (auto simp: save_Inr_iff v preSave_hotspot [OF ty])
qed

text \<open>
  Claim C1, as stated: the schema-side validator accepts a question iff the
  client-side validator reports it valid.  The example question with two options
  marked correct is valid for the client-side validator, which asks for at least
  one correct option, and is rejected by the pre-save hook, which asks for exactly
  one.
\<close>

theorem validators_disagree_on_two_correct:
  "isValid (validateQuestion twoCorrectQuestion)
   \<and> save (toDocument (Some ''65ab4f2e9c1234567890abcd'') [] twoCorrectQuestion) =
       Inl (HookError ''MCQ questions must have exactly one correct option'')"
  by (simp add: twoCorrectQuestion_def exampleQuestion_def exampleOptions_def
      validateQuestion_def toDocument_def qtype_def schema_defs enumerate_eq_zip upt_rec)

text \<open>
  Claim C1, amended: for every question that has the number of sub-entities the
  schema declares as minimum (at least 2 options for a multiple-choice question, at
  least 2 items for an ordering question, at least 1 zone for a hotspot question):
  whenever the schema-side validator accepts the question (sent with an author
  reference), the client-side validator reports it valid; and the schema-side
  validator accepts it iff the client-side validator reports it valid, the author
  reference is present, and in addition a multiple-choice question has exactly one
  correct option, an ordering question has the order numbers \<open>0, \<dots>, n - 1\<close> in
  some order, and the trimmed image URL of a hotspot question passes the imageUrl
  rule.
\<close>

theorem schema_accepts_implies_client_valid:
  assumes "case payload q of
             MCQ opts \<Rightarrow> 2 \<le> length opts
           | ORDERING its \<Rightarrow> 2 \<le> length its
           | HOTSPOT zs url img \<Rightarrow> 1 \<le> length zs"
  shows "((\<exists>stored. save (toDocument author tags q) = Inr stored) \<longrightarrow> isValid (validateQuestion q))
   \<and> ((\<exists>stored. save (toDocument author tags q) = Inr stored) \<longleftrightarrow>
        isValid (validateQuestion q) \<and> author \<noteq> None \<and>
        (case payload q of
           MCQ opts \<Rightarrow> length (filter opt_isCorrect opts) = 1
         | ORDERING its \<Rightarrow> sort (map item_order its) = map int [0..<length its]
         | HOTSPOT zs url img \<Rightarrow> imageUrlValidator (map_option trim url)))"
proof (cases "payload q")
  case (MCQ opts)
  then show ?thesis
    using one_correct_some_correct [of opts]
    by (auto simp: save_toDocument_iff isValid_iff)
next
  case (ORDERING its)
  with assms show ?thesis
    by (auto simp: save_toDocument_iff isValid_iff)
next
  case (HOTSPOT zs url img)
  with assms show ?thesis
    by (auto simp: save_toDocument_iff isValid_iff)
qed

theorem schema_accepts_implies_client_valid_witness:
  "(case payload exampleQuestion of
      MCQ opts \<Rightarrow> 2 \<le> length opts
    | ORDERING its \<Rightarrow> 2 \<le> length its
    | HOTSPOT zs url img \<Rightarrow> 1 \<le> length zs)
   \<and> (\<exists>stored. save (toDocument (Some ''65ab4f2e9c1234567890abcd'') [] exampleQuestion) = Inr stored)
   \<and> isValid (validateQuestion exampleQuestion)"
proof -
  have m: "case payload exampleQuestion of
      MCQ opts \<Rightarrow> 2 \<le> length opts
    | ORDERING its \<Rightarrow> 2 \<le> length its
    | HOTSPOT zs url img \<Rightarrow> 1 \<le> length zs"
    by (simp add: exampleQuestion_def exampleOptions_def)
  have "\<exists>stored. save (toDocument (Some ''65ab4f2e9c1234567890abcd'') [] exampleQuestion) = Inr stored"
    by (simp add: exampleQuestion_def exampleOptions_def toDocument_def qtype_def schema_defs
        enumerate_eq_zip upt_rec)
  then show ?thesis
    using schema_accepts_implies_client_valid
      [OF m, of "Some ''65ab4f2e9c1234567890abcd''" "[]"] m
    by blast
qed

subsection \<open>Duplicating a question\<close>

lemma trim_copy_suffix: "trim (s @ '' (Copy)'') \<noteq> []"
  by (simp add: trim_empty_iff isWhiteSpace_def)

lemma validateQuestion_result:
  "validateQuestion q =
     \<lparr>isValid = (errors (validateQuestion q) = []), errors = errors (validateQuestion q)\<rparr>"
  by (simp add: validateQuestion_def Let_def)

lemma duplicatedQuestion_errors:
  "errors (validateQuestion (duplicatedQuestion q newId)) =
     filter (\<lambda>m. m \<noteq> ''Question stem is required'') (errors (validateQuestion q))"
  unfolding validateQuestion_errors
  by (cases "payload q") (simp_all add: duplicatedQuestion_def trim_copy_suffix)

text \<open>
  Claim C6, as stated: the duplicate has another identifier than the original and
  passes or fails client-side validation exactly as the original.  A question with
  a blank stem fails validation, while its duplicate, whose stem is \<open>" (Copy)"\<close>,
  passes; and the identifier of the duplicate is whatever \<open>generateId\<close> returns,
  which the code does not compare with the identifier of the original.
\<close>

theorem duplicate_of_blank_stem_is_valid:
  "\<not> isValid (validateQuestion blankStemQuestion)
   \<and> isValid (validateQuestion (duplicatedQuestion blankStemQuestion ''p7m2c5d8e''))
   \<and> qid (duplicatedQuestion blankStemQuestion ''k3x9q0z1a'') = qid blankStemQuestion"
  by (simp add: blankStemQuestion_def duplicatedQuestion_def exampleZone_def
      validateQuestion_def trim_def isWhiteSpace_def)

text \<open>
  Claim C6, amended: \<open>duplicateQuestion\<close> produces a question whose identifier is
  the freshly generated one, whose stem is the original stem followed by
  \<open>" (Copy)"\<close>, and whose other fields are those of the original; it appends the
  copy to the collection and selects it.  The client-side validator reports for
  the duplicate the errors of the original except \<open>Question stem is required\<close>, so
  the duplicate is valid iff the original has no other error, and both get the
  same result whenever the original stem is not blank.
\<close>

theorem duplicateQuestion_copy:
  "qid (duplicatedQuestion q newId) = newId
   \<and> stem (duplicatedQuestion q newId) = stem q @ '' (Copy)''
   \<and> purpose (duplicatedQuestion q newId) = purpose q
   \<and> topic (duplicatedQuestion q newId) = topic q
   \<and> learningObjective (duplicatedQuestion q newId) = learningObjective q
   \<and> bloomsLevel (duplicatedQuestion q newId) = bloomsLevel q
   \<and> payload (duplicatedQuestion q newId) = payload q
   \<and> questions (duplicateQuestion st q newId) = questions st @ [duplicatedQuestion q newId]
   \<and> currentQuestionId (duplicateQuestion st q newId) = Some newId
   \<and> errors (validateQuestion (duplicatedQuestion q newId)) =
        filter (\<lambda>m. m \<noteq> ''Question stem is required'') (errors (validateQuestion q))
   \<and> (isValid (validateQuestion (duplicatedQuestion q newId)) \<longleftrightarrow>
        set (errors (validateQuestion q)) \<subseteq> {''Question stem is required''})
   \<and> (trim (stem q) \<noteq> [] \<longrightarrow>
        validateQuestion (duplicatedQuestion q newId) = validateQuestion q)"
proof -
  let ?dup = "duplicatedQuestion q newId"
  have fields: "qid ?dup = newId \<and> stem ?dup = stem q @ '' (Copy)''
      \<and> purpose ?dup = purpose q \<and> topic ?dup = topic q
      \<and> learningObjective ?dup = learningObjective q
      \<and> bloomsLevel ?dup = bloomsLevel q \<and> payload ?dup = payload q"
    by (simp add: duplicatedQuestion_def)
  have coll: "questions (duplicateQuestion st q newId) = questions st @ [?dup]
      \<and> currentQuestionId (duplicateQuestion st q newId) = Some newId"
    by (simp add: duplicateQuestion_def Let_def duplicatedQuestion_def)
  have errs: "errors (validateQuestion ?dup) =
        filter (\<lambda>m. m \<noteq> ''Question stem is required'') (errors (validateQuestion q))"
    by (rule duplicatedQuestion_errors)
  have valid: "isValid (validateQuestion ?dup) \<longleftrightarrow>
        set (errors (validateQuestion q)) \<subseteq> {''Question stem is required''}"
    unfolding isValid_errors errs by (auto simp: filter_empty_conv)
  have same: "trim (stem q) \<noteq> [] \<longrightarrow> validateQuestion ?dup = validateQuestion q"
  proof
    assume "trim (stem q) \<noteq> []"
    then have "''Question stem is required'' \<notin> set (errors (validateQuestion q))"
      by (simp add: stem_error_iff)
    then have "filter (\<lambda>m. m \<noteq> ''Question stem is required'') (errors (validateQuestion q))
        = errors (validateQuestion q)"
      by (auto simp del: filter_True intro!: filter_True)
    with errs have "errors (validateQuestion ?dup) = errors (validateQuestion q)" by simp
    then show "validateQuestion ?dup = validateQuestion q"
      using validateQuestion_result [of ?dup] validateQuestion_result [of q] by simp
  qed
  from fields coll errs valid same show ?thesis by blast
qed

theorem duplicateQuestion_copy_witness:
  "trim (stem exampleQuestion) \<noteq> []
   \<and> validateQuestion (duplicatedQuestion exampleQuestion ''p7m2c5d8e'') = validateQuestion exampleQuestion
   \<and> isValid (validateQuestion (duplicatedQuestion exampleQuestion ''p7m2c5d8e''))
   \<and> qid (duplicatedQuestion exampleQuestion ''p7m2c5d8e'') \<noteq> qid exampleQuestion"
proof -
  have a: "trim (stem exampleQuestion) \<noteq> []"
    by (simp add: exampleQuestion_def trim_def isWhiteSpace_def)
  have b: "errors (validateQuestion exampleQuestion) = []"
    by (simp add: validateQuestion_errors exampleQuestion_def exampleOptions_def
        trim_def isWhiteSpace_def)
  have c: "qid exampleQuestion = ''q1''"
    by (simp add: exampleQuestion_def)
  show ?thesis
    using duplicateQuestion_copy [of exampleQuestion "''p7m2c5d8e''"
        "\<lparr>questions = [exampleQuestion], currentQuestionId = None\<rparr>"] a b c
    by (simp add: isValid_errors)
qed

subsection \<open>The ordering editor keeps the order numbers sequential\<close>

lemma itemsOf_withItems [simp]: "itemsOf (withItems question its) = its"
  by (simp add: itemsOf_def withItems_def)

lemma qtype_withItems [simp]: "qtype (withItems question its) = Ordering"
  by (simp add: qtype_def withItems_def)

lemma renumber_orders_from:
  "map item_order (map (\<lambda>(index, item). item\<lparr>item_order := int index\<rparr>) (enumerate n its))
     = map int [n..<n + length its]"
proof (induction its arbitrary: n)
  case Nil
  show ?case by simp
next
  case (Cons item its)
  have "[n..<n + length (item # its)] = n # [Suc n..<n + length (item # its)]"
    by (rule upt_conv_Cons) simp
  moreover have "n + length (item # its) = Suc n + length its"
    by simp
  ultimately have "[n..<n + length (item # its)] = n # [Suc n..<Suc n + length its]"
    by (simp only:)
  with Cons [of "Suc n"] show ?case by simp
qed

lemma renumber_orders: "map item_order (renumber its) = map int [0..<length its]"
  using renumber_orders_from [of 0 its] by (simp add: renumber_def)

lemma length_renumber [simp]: "length (renumber its) = length its"
  by (simp add: renumber_def)

lemma renumber_keeps_items:
  "map item_id (renumber its) = map item_id its \<and> map item_text (renumber its) = map item_text its"
proof -
  have "map item_id (map (\<lambda>(index, item). item\<lparr>item_order := int index\<rparr>) (enumerate n its))
          = map item_id its
      \<and> map item_text (map (\<lambda>(index, item). item\<lparr>item_order := int index\<rparr>) (enumerate n its))
          = map item_text its" for n
    by (induction its arbitrary: n) simp_all
  then show ?thesis by (simp add: renumber_def)
qed

lemma addItem_orders:
  "map item_order (itemsOf (addItem newId question)) =
     map item_order (itemsOf question) @ [int (length (itemsOf question))]"
  by (simp add: addItem_def Let_def)

lemma removeItem_orders:
  "length (itemsOf question) > 2 \<Longrightarrow>
     map item_order (itemsOf (removeItem itemId question)) =
       map int [0..<length (filter (\<lambda>item. item_id item \<noteq> itemId) (itemsOf question))]"
  by (simp add: removeItem_def renumber_orders)

lemma handleDragEnd_orders:
  "handleDragEnd mv activeId (Some overId) question = Inr question' \<Longrightarrow> activeId \<noteq> overId \<Longrightarrow>
     map item_order (itemsOf question') = map int [0..<length (itemsOf question')]"
  by (auto simp: handleDragEnd_def Let_def renumber_orders)

lemma renumber_keeps_id_text:
  "map (\<lambda>item. (item_id item, item_text item)) (renumber its) =
   map (\<lambda>item. (item_id item, item_text item)) its"
proof -
  have "map (\<lambda>item. (item_id item, item_text item))
          (map (\<lambda>(index, item). item\<lparr>item_order := int index\<rparr>) (enumerate n its))
      = map (\<lambda>item. (item_id item, item_text item)) its" for n
    by (induction its arbitrary: n) simp_all
  then show ?thesis by (simp add: renumber_def)
qed

lemma arrayMove_from_minus_one: "arrayMove [a, b, c] (- 1) 0 = [c, a, b]"
  by (simp add: arrayMove_def spliceStart_def)

lemma orderingEdited_invariant:
  assumes "orderingEdited mv q"
  shows "qtype q = Ordering \<and> map item_order (itemsOf q) = map int [0..<length (itemsOf q)]"
  using assms
proof (induction rule: orderingEdited.induct)
  case (created gen q)
  then have "q = baseQuestion (gen 0)
      (ORDERING [stubItem (gen 1) 0, stubItem (gen 2) 1, stubItem (gen 3) 2])"
    by (simp add: createEmptyQuestion_def)
  then show ?case
    by (simp add: baseQuestion_def qtype_def itemsOf_def stubItem_def upt_rec)
next
  case (stem_updated q s)
  then show ?case
    by (simp add: updateStem_def qtype_def itemsOf_def)
next
  case (purpose_updated q p)
  then show ?case
    by (simp add: updatePurpose_def qtype_def itemsOf_def)
next
  case (metadata_updated q m)
  then show ?case
    by (cases m) (simp_all add: qtype_def itemsOf_def)
next
  case (item_updated q i t)
  have "map item_order (itemsOf (updateItem i t q)) = map item_order (itemsOf q)"
    by (simp add: updateItem_def comp_def if_distrib [where f = item_order])
  moreover have "length (itemsOf (updateItem i t q)) = length (itemsOf q)"
    by (simp add: updateItem_def)
  moreover have "qtype (updateItem i t q) = Ordering"
    by (simp add: updateItem_def)
  ultimately show ?case
    using item_updated by (simp only:)
next
  case (item_added q i)
  then show ?case
    by (simp add: addItem_orders) (simp add: addItem_def Let_def)
next
  case (item_removed q i)
  show ?case
  proof (cases "length (itemsOf q) > 2")
    case True
    then show ?thesis
      by (simp add: removeItem_orders) (simp add: removeItem_def)
  next
    case False
    with item_removed show ?thesis
      by (simp add: removeItem_def)
  qed
next
  case (dragged q a ov q')
  show ?case
  proof (cases ov)
    case None
    with dragged show ?thesis by (simp add: handleDragEnd_def)
  next
    case (Some overId)
    show ?thesis
    proof (cases "a = overId")
      case True
      with dragged Some show ?thesis by (simp add: handleDragEnd_def)
    next
      case False
      with dragged(2) Some have q': "q' = withItems q (renumber (mv (itemsOf q)
          (findIndex (\<lambda>item. item_id item = a) (itemsOf q))
          (findIndex (\<lambda>item. item_id item = overId) (itemsOf q))))"
        by (simp add: handleDragEnd_def Let_def)
      show ?thesis
        unfolding q' by (simp add: renumber_orders)
    qed
  qed
qed

lemma orderingEdited_preSave:
  assumes "orderingEdited mv q"
  shows "preSave (castDocument (toDocument author tags q)) = None"
proof -
  have inv: "qtype q = Ordering \<and> map item_order (itemsOf q) = map int [0..<length (itemsOf q)]"
    using assms by (rule orderingEdited_invariant)
  then obtain its where p: "payload q = ORDERING its"
    by (cases "payload q") (simp_all add: qtype_def)
  let ?d = "castDocument (toDocument author tags q)"
  have ty: "doc_type ?d = Ordering"
    using inv by (simp add: toDocument_def)
  have "map item_order (doc_items ?d) = map item_order (itemsOf q)"
    using p by (simp add: toDocument_def itemsOf_def)
  moreover have "length (doc_items ?d) = length (itemsOf q)"
    using p by (simp add: toDocument_def itemsOf_def)
  moreover have "sort (map int [0..<n]) = map int [0..<n]" for n
    using sorted_map_int_upt [of 0 n] by (simp add: sorted_sort_id)
  ultimately have "sort (map item_order (doc_items ?d)) = map int [0..<length (doc_items ?d)]"
    using inv by simp
  then show ?thesis
    using preSave_ordering [OF ty] ordersLoop_zero_iff [of "sort (map item_order (doc_items ?d))"]
    by simp
qed

text \<open>
  Claim C10: the operations of the ordering editor keep the order numbers
  sequential.  \<open>addItem\<close> appends one item, with the new id, an empty text and the
  current number of items as its order, and leaves the other items as they are.
  \<open>removeItem\<close>, when there are more than two items, keeps the items with another
  id, in their order and with their texts, and numbers them by their indices;
  with two items or fewer it changes nothing.  Drag-reorder (\<open>handleDragEnd\<close>) onto
  another item returns the items that the library's \<open>arrayMove\<close> gives for the
  indices of the two ids (whatever it gives), with their ids and texts, numbered
  \<open>0, \<dots>, n - 1\<close>; dropping an item onto itself changes nothing.  So every
  question reached from \<open>createEmptyQuestion('ordering')\<close> by any sequence of the
  editor's operations is an ordering question whose items carry the order numbers
  \<open>0, \<dots>, n - 1\<close> in storage order, and the pre-save hook of the schema accepts
  it.
\<close>

theorem ordering_editor_sequential:
  "itemsOf (addItem newId q) =
     itemsOf q @ [\<lparr>item_id = newId, item_text = [], item_order = int (length (itemsOf q))\<rparr>]
   \<and> (length (itemsOf q) > 2 \<longrightarrow>
        map (\<lambda>item. (item_id item, item_text item)) (itemsOf (removeItem itemId q)) =
          map (\<lambda>item. (item_id item, item_text item))
            (filter (\<lambda>item. item_id item \<noteq> itemId) (itemsOf q))
        \<and> map item_order (itemsOf (removeItem itemId q)) =
            map int [0..<length (itemsOf (removeItem itemId q))])
   \<and> (length (itemsOf q) \<le> 2 \<longrightarrow> removeItem itemId q = q)
   \<and> (activeId \<noteq> overId \<longrightarrow>
        (\<exists>q'. handleDragEnd mv activeId (Some overId) q = Inr q'
           \<and> map (\<lambda>item. (item_id item, item_text item)) (itemsOf q') =
               map (\<lambda>item. (item_id item, item_text item))
                 (mv (itemsOf q) (findIndex (\<lambda>item. item_id item = activeId) (itemsOf q))
                    (findIndex (\<lambda>item. item_id item = overId) (itemsOf q)))
           \<and> map item_order (itemsOf q') = map int [0..<length (itemsOf q')]))
   \<and> handleDragEnd mv activeId (Some activeId) q = Inr q
   \<and> (orderingEdited mv q \<longrightarrow>
        qtype q = Ordering
        \<and> map item_order (itemsOf q) = map int [0..<length (itemsOf q)]
        \<and> preSave (castDocument (toDocument author tags q)) = None)"
proof -
  have add: "itemsOf (addItem newId q) =
     itemsOf q @ [\<lparr>item_id = newId, item_text = [], item_order = int (length (itemsOf q))\<rparr>]"
    by (simp add: addItem_def Let_def)
  have remove: "length (itemsOf q) > 2 \<longrightarrow>
        map (\<lambda>item. (item_id item, item_text item)) (itemsOf (removeItem itemId q)) =
          map (\<lambda>item. (item_id item, item_text item))
            (filter (\<lambda>item. item_id item \<noteq> itemId) (itemsOf q))
        \<and> map item_order (itemsOf (removeItem itemId q)) =
            map int [0..<length (itemsOf (removeItem itemId q))]"
    by (simp add: removeItem_def renumber_keeps_id_text renumber_orders)
  have keep: "length (itemsOf q) \<le> 2 \<longrightarrow> removeItem itemId q = q"
    by (simp add: removeItem_def)
  have drag: "activeId \<noteq> overId \<longrightarrow>
        (\<exists>q'. handleDragEnd mv activeId (Some overId) q = Inr q'
           \<and> map (\<lambda>item. (item_id item, item_text item)) (itemsOf q') =
               map (\<lambda>item. (item_id item, item_text item))
                 (mv (itemsOf q) (findIndex (\<lambda>item. item_id item = activeId) (itemsOf q))
                    (findIndex (\<lambda>item. item_id item = overId) (itemsOf q)))
           \<and> map item_order (itemsOf q') = map int [0..<length (itemsOf q')])"
    by (simp add: handleDragEnd_def Let_def renumber_keeps_id_text renumber_orders)
  have self: "handleDragEnd mv activeId (Some activeId) q = Inr q"
    by (simp add: handleDragEnd_def)
  have reach: "orderingEdited mv q \<longrightarrow>
        qtype q = Ordering
        \<and> map item_order (itemsOf q) = map int [0..<length (itemsOf q)]
        \<and> preSave (castDocument (toDocument author tags q)) = None"
    using orderingEdited_invariant [of mv q] orderingEdited_preSave [of mv q author tags]
    by blast
  from add remove keep drag self reach show ?thesis by blast
qed

theorem ordering_editor_sequential_witness:
  "length (itemsOf draggedOrdering) > 2
   \<and> handleDragEnd arrayMove ''n1'' (Some ''n4'') (addItem ''n4'' freshOrdering) = Inr draggedOrdering
   \<and> orderingEdited arrayMove draggedOrdering
   \<and> map item_id (itemsOf draggedOrdering) = [''n2'', ''n3'', ''n4'', ''n1'']
   \<and> map item_order (itemsOf draggedOrdering) = [0, 1, 2, 3]
   \<and> map (\<lambda>item. (item_id item, item_text item)) (itemsOf (removeItem ''n2'' draggedOrdering))
       = [(''n3'', []), (''n4'', []), (''n1'', [])]
   \<and> map item_order (itemsOf (removeItem ''n2'' draggedOrdering)) = [0, 1, 2]"
proof -
  let ?its = "[stubItem ''n1'' 0, stubItem ''n2'' 1, stubItem ''n3'' 2, stubItem ''n4'' 3]"
  let ?moved = "[stubItem ''n2'' 1, stubItem ''n3'' 2, stubItem ''n4'' 3, stubItem ''n1'' 0]"
  let ?dragged = "[stubItem ''n2'' 0, stubItem ''n3'' 1, stubItem ''n4'' 2, stubItem ''n1'' 3]"
  have 0: "createEmptyQuestion exampleIds ''ordering'' = Inr freshOrdering"
    by (simp add: createEmptyQuestion_def exampleIds_def freshOrdering_def)
  have items: "itemsOf freshOrdering = [stubItem ''n1'' 0, stubItem ''n2'' 1, stubItem ''n3'' 2]"
    by (simp add: freshOrdering_def baseQuestion_def itemsOf_def)
  have added: "addItem ''n4'' freshOrdering = withItems freshOrdering ?its"
    by (simp add: addItem_def Let_def items stubItem_def)
  have upt4: "[0..<4] = [0, 1, 2, 3::nat]" and upt3: "[0..<3] = [0, 1, 2::nat]"
    by (simp_all add: upt_rec)
  have old: "findIndex (\<lambda>item. item_id item = ''n1'') ?its = 0"
    by (simp add: findIndex_def stubItem_def)
  have new: "findIndex (\<lambda>item. item_id item = ''n4'') ?its = 3"
    by (simp add: findIndex_def stubItem_def)
  have moved: "arrayMove ?its 0 3 = ?moved"
    by (simp add: arrayMove_def spliceStart_def)
  have renum: "renumber ?moved = ?dragged"
    by (simp add: renumber_def enumerate_eq_zip upt4 stubItem_def)
  have drag: "handleDragEnd arrayMove ''n1'' (Some ''n4'') (addItem ''n4'' freshOrdering)
      = Inr draggedOrdering"
  proof -
    have "handleDragEnd arrayMove ''n1'' (Some ''n4'') (withItems freshOrdering ?its)
        = Inr (withItems (withItems freshOrdering ?its) ?dragged)"
      by (simp add: handleDragEnd_def old new moved renum)
    moreover have "withItems (withItems freshOrdering ?its) ?dragged = draggedOrdering"
      by (simp add: draggedOrdering_def withItems_def)
    ultimately show ?thesis
      by (simp only: added)
  qed
  have reach: "orderingEdited arrayMove draggedOrdering"
    by (intro orderingEdited.dragged [OF _ drag] orderingEdited.item_added
        orderingEdited.created [OF 0])
  have its: "itemsOf draggedOrdering = ?dragged"
    by (simp add: draggedOrdering_def)
  have len: "length (itemsOf draggedOrdering) > 2"
    by (simp add: its)
  have ids: "map item_id (itemsOf draggedOrdering) = [''n2'', ''n3'', ''n4'', ''n1'']"
    by (simp add: its stubItem_def)
  have kept: "map (\<lambda>item. (item_id item, item_text item))
        (filter (\<lambda>item. item_id item \<noteq> ''n2'') (itemsOf draggedOrdering))
      = [(''n3'', []), (''n4'', []), (''n1'', [])]"
    by (simp add: its stubItem_def)
  have ints: "map int [0..<4] = [0, 1, 2, 3]" "map int [0..<3] = [0, 1, 2]"
    by (simp_all add: upt4 upt3)
  have l4: "length (itemsOf draggedOrdering) = 4"
    by (simp add: its)
  have l3: "length (itemsOf (removeItem ''n2'' draggedOrdering)) = 3"
    by (simp add: removeItem_def its stubItem_def)
  show ?thesis
    using ordering_editor_sequential [where q = draggedOrdering and mv = arrayMove
        and itemId = "''n2''" and activeId = "''n1''" and overId = "''n4''"]
      reach drag len ids kept ints l4 l3
    by simp
qed

subsection \<open>The client-side validator is a pure function of the question\<close>

lemma pushError_question [simp]: "vs_question (pushError m s) = vs_question s"
  by (simp add: pushError_def)

lemma pushError_errors [simp]: "vs_errors (pushError m s) = vs_errors s @ [m]"
  by (simp add: pushError_def)

lemma baseValidation_question [simp]: "vs_question (baseValidation s) = vs_question s"
  by (simp add: baseValidation_def)

lemma purposeValidation_question [simp]: "vs_question (purposeValidation s) = vs_question s"
  by (simp add: purposeValidation_def Let_def)

lemma typeValidation_question [simp]: "vs_question (typeValidation s) = vs_question s"
  by (cases "payload (vs_question s)") (simp_all add: typeValidation_def Let_def)

lemma baseValidation_errors:
  "vs_errors (baseValidation s) =
     vs_errors s @ (if trim (stem (vs_question s)) = [] then [''Question stem is required''] else [])"
  by (simp add: baseValidation_def)

lemma purposeValidation_errors:
  "vs_errors (purposeValidation s) =
     vs_errors s @
     (if purpose (vs_question s) = Summative \<and> blankOpt (learningObjective (vs_question s))
      then [''Learning objective is required for summative questions''] else []) @
     (if purpose (vs_question s) = Summative \<and> bloomsLevel (vs_question s) = None
      then [''Bloom's level is required for summative questions''] else [])"
  by (simp add: purposeValidation_def Let_def)

lemma typeValidation_errors:
  "vs_errors (typeValidation s) =
     vs_errors s @
     (case payload (vs_question s) of
        MCQ opts \<Rightarrow>
          (if \<not> list_ex opt_isCorrect opts
           then [''At least one option must be marked as correct''] else []) @
          (if list_ex (\<lambda>opt. trim (opt_text opt) = []) opts
           then [''All options must have text''] else []) @
          (if purpose (vs_question s) = Formative \<and> list_ex (\<lambda>opt. blankOpt (opt_feedback opt)) opts
           then [''All options must have feedback for formative questions''] else [])
      | ORDERING its \<Rightarrow>
          (if list_ex (\<lambda>item. trim (item_text item) = []) its
           then [''All items must have text''] else []) @
          (if length its < 2 then [''Ordering questions must have at least 2 items''] else [])
      | HOTSPOT zs url img \<Rightarrow>
          (if zs = [] then [''At least one hotspot zone is required''] else []))"
  by (cases "payload (vs_question s)") (simp_all add: typeValidation_def Let_def)

lemma validateQuestionCall_eq: "validateQuestionCall q = (q, validateQuestion q)"
proof -
  let ?s = "typeValidation (purposeValidation (baseValidation \<lparr>vs_question = q, vs_errors = []\<rparr>))"
  have doc: "vs_question ?s = q"
    by simp
  have errs: "vs_errors ?s = errors (validateQuestion q)"
    unfolding validateQuestion_errors
    by (cases "payload q")
      (simp_all add: typeValidation_errors purposeValidation_errors baseValidation_errors)
  have "validateQuestionCall q = (vs_question ?s, \<lparr>isValid = (vs_errors ?s = []), errors = vs_errors ?s\<rparr>)"
    by (simp add: validateQuestionCall_def Let_def)
  also have "\<dots> = (q, \<lparr>isValid = (errors (validateQuestion q) = []), errors = errors (validateQuestion q)\<rparr>)"
    by (simp only: doc errs)
  also have "\<dots> = (q, validateQuestion q)"
    using validateQuestion_result [of q] by simp
  finally show ?thesis .
qed

lemma subseq_if_single: "subseq (if c then [m] else []) [m]"
  by simp

lemma validateQuestion_errors_ordered: "subseq (errors (validateQuestion q)) allMessages"
proof -
  let ?m4 = "''At least one option must be marked as correct''"
  let ?m5 = "''All options must have text''"
  let ?m6 = "''All options must have feedback for formative questions''"
  let ?m7 = "''All items must have text''"
  let ?m8 = "''Ordering questions must have at least 2 items''"
  let ?m9 = "''At least one hotspot zone is required''"
  let ?typePart = "case payload q of
        MCQ opts \<Rightarrow>
          (if \<not> list_ex opt_isCorrect opts then [?m4] else []) @
          (if list_ex (\<lambda>opt. trim (opt_text opt) = []) opts then [?m5] else []) @
          (if purpose q = Formative \<and> list_ex (\<lambda>opt. blankOpt (opt_feedback opt)) opts
           then [?m6] else [])
      | ORDERING its \<Rightarrow>
          (if list_ex (\<lambda>item. trim (item_text item) = []) its then [?m7] else []) @
          (if length its < 2 then [?m8] else [])
      | HOTSPOT zs url img \<Rightarrow> (if zs = [] then [?m9] else [])"
  have typePart: "subseq ?typePart ([?m4] @ [?m5] @ [?m6] @ [?m7] @ [?m8] @ [?m9])"
  proof (cases "payload q")
    case (MCQ opts)
    have "subseq (((if \<not> list_ex opt_isCorrect opts then [?m4] else []) @
          (if list_ex (\<lambda>opt. trim (opt_text opt) = []) opts then [?m5] else []) @
          (if purpose q = Formative \<and> list_ex (\<lambda>opt. blankOpt (opt_feedback opt)) opts
           then [?m6] else [])) @ [])
        (([?m4] @ [?m5] @ [?m6]) @ ([?m7] @ [?m8] @ [?m9]))"
      by (intro list_emb_append_mono subseq_if_single) simp
    with MCQ show ?thesis by simp
  next
    case (ORDERING its)
    have "subseq ([] @ ((if list_ex (\<lambda>item. trim (item_text item) = []) its then [?m7] else []) @
          (if length its < 2 then [?m8] else [])) @ [])
        (([?m4] @ [?m5] @ [?m6]) @ ([?m7] @ [?m8]) @ [?m9])"
      by (intro list_emb_append_mono subseq_if_single) simp_all
    with ORDERING show ?thesis by simp
  next
    case (HOTSPOT zs url img)
    have "subseq ([] @ (if zs = [] then [?m9] else []))
        (([?m4] @ [?m5] @ [?m6] @ [?m7] @ [?m8]) @ [?m9])"
      by (intro list_emb_append_mono subseq_if_single) simp
    with HOTSPOT show ?thesis by simp
  qed
  have "subseq (errors (validateQuestion q))
      ([''Question stem is required''] @
       [''Learning objective is required for summative questions''] @
       [''Bloom's level is required for summative questions''] @
       ([?m4] @ [?m5] @ [?m6] @ [?m7] @ [?m8] @ [?m9]))"
    unfolding validateQuestion_errors
    by (intro list_emb_append_mono subseq_if_single typePart)
  then show ?thesis
    by (simp add: allMessages_def)
qed

text \<open>
  Claim C9: \<open>validateQuestion\<close> is a pure function of the question.  A call
  leaves the question as it was and returns the result that the function of the
  question gives, so a second call on the unmodified question returns the same
  result.  The result depends only on the stem, the purpose, the learning
  objective, the Bloom's level and the type-specific fields: two questions that
  agree on these get the same \<open>isValid\<close> and the same error list.  The errors
  always come in the order of the checks (a subsequence of the list of all
  messages), and \<open>isValid\<close> holds iff there is none.
\<close>

theorem validateQuestion_pure:
  "fst (validateQuestionCall q) = q
   \<and> snd (validateQuestionCall q) = validateQuestion q
   \<and> validateQuestionCall (fst (validateQuestionCall q)) = validateQuestionCall q
   \<and> (stem q = stem q' \<and> purpose q = purpose q' \<and> learningObjective q = learningObjective q'
        \<and> bloomsLevel q = bloomsLevel q' \<and> payload q = payload q'
        \<longrightarrow> validateQuestion q = validateQuestion q')
   \<and> (isValid (validateQuestion q) \<longleftrightarrow> errors (validateQuestion q) = [])
   \<and> subseq (errors (validateQuestion q)) allMessages"
proof -
  have call: "fst (validateQuestionCall q) = q \<and> snd (validateQuestionCall q) = validateQuestion q
      \<and> validateQuestionCall (fst (validateQuestionCall q)) = validateQuestionCall q"
    by (simp add: validateQuestionCall_eq)
  have same: "stem q = stem q' \<and> purpose q = purpose q' \<and> learningObjective q = learningObjective q'
        \<and> bloomsLevel q = bloomsLevel q' \<and> payload q = payload q'
        \<longrightarrow> validateQuestion q = validateQuestion q'"
  proof (intro impI, elim conjE)
    assume "stem q = stem q'" "purpose q = purpose q'"
      "learningObjective q = learningObjective q'" "bloomsLevel q = bloomsLevel q'"
      "payload q = payload q'"
    then show "validateQuestion q = validateQuestion q'"
      unfolding validateQuestion_def by (simp only:)
  qed
  from call same isValid_errors [of q] validateQuestion_errors_ordered [of q]
  show ?thesis by blast
qed

theorem validateQuestion_pure_witness:
  "payload (exampleQuestion\<lparr>qid := ''q2'', topic := None\<rparr>) = payload exampleQuestion
   \<and> validateQuestion (exampleQuestion\<lparr>qid := ''q2'', topic := None\<rparr>) = validateQuestion exampleQuestion
   \<and> validateQuestionCall noFeedbackQuestion =
       (noFeedbackQuestion,
        \<lparr>isValid = False, errors = [''All options must have feedback for formative questions'']\<rparr>)"
proof -
  have "errors (validateQuestion noFeedbackQuestion) =
      [''All options must have feedback for formative questions'']"
    by (simp add: validateQuestion_errors noFeedbackQuestion_def exampleQuestion_def
        exampleOptions_def trim_def isWhiteSpace_def)
  then have r: "validateQuestion noFeedbackQuestion =
      \<lparr>isValid = False, errors = [''All options must have feedback for formative questions'']\<rparr>"
    using validateQuestion_result [of noFeedbackQuestion] by simp
  show ?thesis
    using validateQuestion_pure [of noFeedbackQuestion noFeedbackQuestion]
      validateQuestion_pure [of exampleQuestion "exampleQuestion\<lparr>qid := ''q2'', topic := None\<rparr>"]
      r
    by (simp add: prod_eq_iff)
qed

end
